theory Spec2Isabelle
  imports Main "HOL-Library.Word" "HOL-Library.Code_Target_Numeral"
begin

unbundle bit_operations_syntax

section \<open>AmneziaWG configuration (awg\_config.go)\<close>

subsection \<open>Machine integers and errors\<close>

text \<open>
  Go's \<open>int\<close> is modelled at its width on 64-bit targets, as a two's-complement
  64-bit word: \<open>+\<close> wraps and comparisons are the signed ones (\<open><s\<close>, \<open>\<le>s\<close>).
  \<open>uint32\<close> is a 32-bit word, compared unsigned.
\<close>

type_synonym go_int = "64 word"
type_synonym uint32 = "32 word"

text \<open>
  Errors are values. \<open>New msg\<close> is \<open>errors.New(msg)\<close>, and also \<open>fmt.Errorf\<close> with a
  format that wraps nothing, \<open>msg\<close> being the formatted text; \<open>NumError fn input kind\<close>
  is the \<open>*strconv.NumError\<close> that \<open>strconv.ParseUint\<close> returns; \<open>Wrap msg err\<close> is
  \<open>fmt.Errorf\<close> with a format that ends in \<open>: %w\<close>, \<open>msg\<close> being the text before the
  wrapped error \<open>err\<close>; \<open>LookupError\<close> is an error of the resolver.
\<close>

datatype numErrKind = ErrSyntax | ErrRange

datatype error =
  New string
| NumError string string numErrKind
| LookupError string
| Wrap string error

subsection \<open>ASecConfigType\<close>

record ASecConfigType =
  junkPacketCount :: go_int
  junkPacketMinSize :: go_int
  junkPacketMaxSize :: go_int
  initPacketJunkSize :: go_int
  responsePacketJunkSize :: go_int
  cookieReplyPacketJunkSize :: go_int
  transportPacketJunkSize :: go_int
  initPacketMagicHeader :: uint32
  initPacketMagicHeaderMax :: uint32
  responsePacketMagicHeader :: uint32
  responsePacketMagicHeaderMax :: uint32
  underloadPacketMagicHeader :: uint32
  underloadPacketMagicHeaderMax :: uint32
  transportPacketMagicHeader :: uint32
  transportPacketMagicHeaderMax :: uint32
  hasJunkPacketCount :: bool
  hasJunkPacketMinSize :: bool
  hasJunkPacketMaxSize :: bool
  hasInitPacketJunkSize :: bool
  hasResponsePacketJunkSize :: bool
  hasCookieReplyPacketJunkSize :: bool
  hasTransportPacketJunkSize :: bool
  hasInitPacketMagicHeader :: bool
  hasResponsePacketMagicHeader :: bool
  hasUnderloadPacketMagicHeader :: bool
  hasTransportPacketMagicHeader :: bool
  i1 :: "string option"
  i2 :: "string option"
  i3 :: "string option"
  i4 :: "string option"
  i5 :: "string option"

text \<open>The zero value \<open>ASecConfigType{}\<close>: every number 0, every flag false, every pointer nil.\<close>

definition zeroASecConfig :: ASecConfigType where
  "zeroASecConfig =
     \<lparr> junkPacketCount = 0, junkPacketMinSize = 0, junkPacketMaxSize = 0,
       initPacketJunkSize = 0, responsePacketJunkSize = 0,
       cookieReplyPacketJunkSize = 0, transportPacketJunkSize = 0,
       initPacketMagicHeader = 0, initPacketMagicHeaderMax = 0,
       responsePacketMagicHeader = 0, responsePacketMagicHeaderMax = 0,
       underloadPacketMagicHeader = 0, underloadPacketMagicHeaderMax = 0,
       transportPacketMagicHeader = 0, transportPacketMagicHeaderMax = 0,
       hasJunkPacketCount = False, hasJunkPacketMinSize = False,
       hasJunkPacketMaxSize = False, hasInitPacketJunkSize = False,
       hasResponsePacketJunkSize = False, hasCookieReplyPacketJunkSize = False,
       hasTransportPacketJunkSize = False, hasInitPacketMagicHeader = False,
       hasResponsePacketMagicHeader = False, hasUnderloadPacketMagicHeader = False,
       hasTransportPacketMagicHeader = False,
       i1 = None, i2 = None, i3 = None, i4 = None, i5 = None \<rparr>"

subsection \<open>Effective header intervals\<close>

text \<open>The struct \<open>headerInterval\<close>; its fields \<open>key\<close>, \<open>min\<close>, \<open>max\<close> carry a suffix here.\<close>

record headerInterval =
  key_h :: string
  min_h :: uint32
  max_h :: uint32

definition defaultInitPacketMagicHeader :: uint32 where
  "defaultInitPacketMagicHeader = 1"

definition defaultResponsePacketMagicHeader :: uint32 where
  "defaultResponsePacketMagicHeader = 2"

definition defaultUnderloadPacketMagicHeader :: uint32 where
  "defaultUnderloadPacketMagicHeader = 3"

definition defaultTransportPacketMagicHeader :: uint32 where
  "defaultTransportPacketMagicHeader = 4"

text \<open>
  \<open>collectEffectiveHeaderIntervals\<close>: a nil config is \<open>None\<close>. Each of the four
  intervals is the configured one when its flag is set, the scalar default otherwise.
\<close>

definition collectEffectiveHeaderIntervals :: "ASecConfigType option \<Rightarrow> headerInterval list" where
  "collectEffectiveHeaderIntervals config =
     (let (h1Min, h1Max) =
            (case config of
               Some c \<Rightarrow> if hasInitPacketMagicHeader c
                         then (initPacketMagicHeader c, initPacketMagicHeaderMax c)
                         else (defaultInitPacketMagicHeader, defaultInitPacketMagicHeader)
             | None \<Rightarrow> (defaultInitPacketMagicHeader, defaultInitPacketMagicHeader));
          (h2Min, h2Max) =
            (case config of
               Some c \<Rightarrow> if hasResponsePacketMagicHeader c
                         then (responsePacketMagicHeader c, responsePacketMagicHeaderMax c)
                         else (defaultResponsePacketMagicHeader, defaultResponsePacketMagicHeader)
             | None \<Rightarrow> (defaultResponsePacketMagicHeader, defaultResponsePacketMagicHeader));
          (h3Min, h3Max) =
            (case config of
               Some c \<Rightarrow> if hasUnderloadPacketMagicHeader c
                         then (underloadPacketMagicHeader c, underloadPacketMagicHeaderMax c)
                         else (defaultUnderloadPacketMagicHeader, defaultUnderloadPacketMagicHeader)
             | None \<Rightarrow> (defaultUnderloadPacketMagicHeader, defaultUnderloadPacketMagicHeader));
          (h4Min, h4Max) =
            (case config of
               Some c \<Rightarrow> if hasTransportPacketMagicHeader c
                         then (transportPacketMagicHeader c, transportPacketMagicHeaderMax c)
                         else (defaultTransportPacketMagicHeader, defaultTransportPacketMagicHeader)
             | None \<Rightarrow> (defaultTransportPacketMagicHeader, defaultTransportPacketMagicHeader))
      in [ \<lparr> key_h = ''h1'', min_h = h1Min, max_h = h1Max \<rparr>,
           \<lparr> key_h = ''h2'', min_h = h2Min, max_h = h2Max \<rparr>,
           \<lparr> key_h = ''h3'', min_h = h3Min, max_h = h3Max \<rparr>,
           \<lparr> key_h = ''h4'', min_h = h4Min, max_h = h4Max \<rparr> ])"

text \<open>
  \<open>hasOverlappingHeaderIntervals\<close>: the loop over \<open>j = i + 1 ..\<close> compares \<open>left\<close> with
  every later interval; the loop over \<open>i\<close> does so for every \<open>left\<close> in turn.
\<close>

fun overlapsLater :: "headerInterval \<Rightarrow> headerInterval list \<Rightarrow> bool" where
  "overlapsLater left [] = False"
| "overlapsLater left (right # rest) =
     (if min_h left \<le> max_h right \<and> min_h right \<le> max_h left then True
      else overlapsLater left rest)"

fun hasOverlappingHeaderIntervals :: "headerInterval list \<Rightarrow> bool" where
  "hasOverlappingHeaderIntervals [] = False"
| "hasOverlappingHeaderIntervals (left # rest) =
     (if overlapsLater left rest then True else hasOverlappingHeaderIntervals rest)"

subsection \<open>ValidateASecConfig\<close>

definition messageInitiationSize :: go_int where
  "messageInitiationSize = 148"

definition messageResponseSize :: go_int where
  "messageResponseSize = 92"

definition messageCookieReplySize :: go_int where
  "messageCookieReplySize = 64"

definition messageTransportSize :: go_int where
  "messageTransportSize = 32"

text \<open>The local struct \<open>packetSizeCheck\<close>; its field \<open>size\<close> carries a suffix here.\<close>

record packetSizeCheck =
  isSet :: bool
  size_p :: go_int

definition errJc :: error where
  "errJc = New ''value of the Jc field must be within the range of 1 to 128''"

definition errJminJmax :: error where
  "errJminJmax = New ''value of the Jmin field must be less than or equal to Jmax field value''"

definition errJmax :: error where
  "errJmax = New ''value of the Jmax field must be less than or equal 1280''"

definition errPacketSizeLong :: error where
  "errPacketSizeLong = New ''value of the field S1 + message initiation size (148) must not equal S2 + message response size (92) + S3 + cookie reply size (64) + S4 + transport packet size (32)''"

definition errPacketSizeShort :: error where
  "errPacketSizeShort = New ''value of the field S1 + message initiation size (148) must not equal S2 + message response size (92)''"

definition errHeaderRange :: error where
  "errHeaderRange = New ''invalid magic header range: lower bound cannot exceed upper bound''"

definition errHeaderUnique :: error where
  "errHeaderUnique = New ''values of the H1-H4 fields must be unique''"

text \<open>
  The three junk checks (Jc, Jmin against Jmax, Jmax), in the order of the source; the
  first failing one is returned.
\<close>

definition validateJunk :: "ASecConfigType \<Rightarrow> error option" where
  "validateJunk config =
     (if hasJunkPacketCount config \<and>
         (junkPacketCount config <s 1 \<or> 128 <s junkPacketCount config)
      then Some errJc
      else if hasJunkPacketMinSize config \<and> hasJunkPacketMaxSize config \<and>
              junkPacketMaxSize config <s junkPacketMinSize config
      then Some errJminJmax
      else if hasJunkPacketMaxSize config \<and> 1280 <s junkPacketMaxSize config
      then Some errJmax
      else None)"

definition packetSizes :: "ASecConfigType \<Rightarrow> packetSizeCheck list" where
  "packetSizes config =
     [ \<lparr> isSet = hasInitPacketJunkSize config,
         size_p = messageInitiationSize + initPacketJunkSize config \<rparr>,
       \<lparr> isSet = hasResponsePacketJunkSize config,
         size_p = messageResponseSize + responsePacketJunkSize config \<rparr>,
       \<lparr> isSet = hasCookieReplyPacketJunkSize config,
         size_p = messageCookieReplySize + cookieReplyPacketJunkSize config \<rparr>,
       \<lparr> isSet = hasTransportPacketJunkSize config,
         size_p = messageTransportSize + transportPacketJunkSize config \<rparr> ]"

text \<open>
  The nested loop over \<open>packetSizes\<close>. \<open>packetSizeInner\<close> is the loop over
  \<open>j = i + 1 ..\<close> for a set entry \<open>pi\<close>; \<open>packetSizeOuter\<close> is the loop over \<open>i\<close>.
  Both return at the first pair of set entries with equal sizes; the text of the error
  depends on the flags of S3 and S4 only.
\<close>

fun packetSizeInner :: "ASecConfigType \<Rightarrow> packetSizeCheck \<Rightarrow> packetSizeCheck list \<Rightarrow> error option" where
  "packetSizeInner config pi [] = None"
| "packetSizeInner config pi (pj # rest) =
     (if \<not> isSet pj then packetSizeInner config pi rest
      else if size_p pi = size_p pj
      then (if hasCookieReplyPacketJunkSize config \<or> hasTransportPacketJunkSize config
            then Some errPacketSizeLong
            else Some errPacketSizeShort)
      else packetSizeInner config pi rest)"

fun packetSizeOuter :: "ASecConfigType \<Rightarrow> packetSizeCheck list \<Rightarrow> error option" where
  "packetSizeOuter config [] = None"
| "packetSizeOuter config (pi # rest) =
     (if \<not> isSet pi then packetSizeOuter config rest
      else (case packetSizeInner config pi rest of
              Some e \<Rightarrow> Some e
            | None \<Rightarrow> packetSizeOuter config rest))"

text \<open>The loop over the effective intervals that rejects \<open>min > max\<close>.\<close>

fun checkIntervalBounds :: "headerInterval list \<Rightarrow> error option" where
  "checkIntervalBounds [] = None"
| "checkIntervalBounds (interval # rest) =
     (if max_h interval < min_h interval then Some errHeaderRange
      else checkIntervalBounds rest)"

definition validateHeaders :: "ASecConfigType \<Rightarrow> error option" where
  "validateHeaders config =
     (let intervals = collectEffectiveHeaderIntervals (Some config) in
      case checkIntervalBounds intervals of
        Some e \<Rightarrow> Some e
      | None \<Rightarrow> if hasOverlappingHeaderIntervals intervals then Some errHeaderUnique else None)"

text \<open>\<open>ValidateASecConfig\<close>: \<open>None\<close> is the nil error. A nil config is valid.\<close>

definition ValidateASecConfig :: "ASecConfigType option \<Rightarrow> error option" where
  "ValidateASecConfig config =
     (case config of
        None \<Rightarrow> None
      | Some c \<Rightarrow>
          (case validateJunk c of
             Some e \<Rightarrow> Some e
           | None \<Rightarrow>
               (case packetSizeOuter c (packetSizes c) of
                  Some e \<Rightarrow> Some e
                | None \<Rightarrow> validateHeaders c)))"

subsection \<open>The library functions used by parseMagicHeaderInterval\<close>

text \<open>
  Go strings are byte sequences; \<open>string\<close> is the list of their bytes.

  \<open>strings.TrimSpace\<close> removes the leading and the trailing white space, "as defined by
  Unicode". A white-space rune at either end of a string is recognised by its UTF-8
  encoding; \<open>whiteSpaceEncodings\<close> lists the encodings of the runes for which
  \<open>unicode.IsSpace\<close> holds: U+0009 to U+000D, U+0020, U+0085, U+00A0, U+1680, U+2000 to
  U+200A, U+2028, U+2029, U+202F, U+205F and U+3000. No encoding is a prefix or a suffix
  of another one.
\<close>

definition whiteSpaceEncodings :: "string list" where
  "whiteSpaceEncodings =
     map (map char_of)
       ([[0x09 :: nat], [0x0A], [0x0B], [0x0C], [0x0D], [0x20],
         [0xC2, 0x85], [0xC2, 0xA0], [0xE1, 0x9A, 0x80]] @
        map (\<lambda>b. [0xE2, 0x80, b]) [0x80 ..< 0x8B] @
        [[0xE2, 0x80, 0xA8], [0xE2, 0x80, 0xA9], [0xE2, 0x80, 0xAF],
         [0xE2, 0x81, 0x9F], [0xE3, 0x80, 0x80]])"

text \<open>The number of bytes of the first of \<open>encs\<close> that \<open>s\<close> starts with, 0 when there is none.\<close>

definition leadingLen :: "string list \<Rightarrow> string \<Rightarrow> nat" where
  "leadingLen encs s =
     (case find (\<lambda>w. take (length w) s = w) encs of
        None \<Rightarrow> 0
      | Some w \<Rightarrow> length w)"

function trimLeading :: "string list \<Rightarrow> string \<Rightarrow> string" where
  "trimLeading encs s =
     (let n = leadingLen encs s in
      if 0 < n \<and> n \<le> length s then trimLeading encs (drop n s) else s)"
  by pat_completeness auto
termination
  by (relation "measure (\<lambda>(encs, s). length s)") auto

definition TrimSpace :: "string \<Rightarrow> string" where
  "TrimSpace s =
     rev (trimLeading (map rev whiteSpaceEncodings) (rev (trimLeading whiteSpaceEncodings s)))"

text \<open>
  \<open>strings.Split(s, sep)\<close> for a separator of one byte: the pieces of \<open>s\<close> between the
  occurrences of \<open>sep\<close>, one more than there are occurrences.
\<close>

fun Split :: "string \<Rightarrow> char \<Rightarrow> string list" where
  "Split [] sep = [[]]"
| "Split (c # cs) sep =
     (if c = sep then [] # Split cs sep
      else (case Split cs sep of
              [] \<Rightarrow> [[c]]
            | p # ps \<Rightarrow> (c # p) # ps))"

text \<open>
  \<open>strconv.ParseUint(s, 10, bitSize)\<close>. The loop reads one byte at a time: a byte that
  is not a decimal digit is a syntax error; the value so far at or over the cutoff
  (the least number whose tenfold exceeds \<open>2^64 - 1\<close>) is a range error; so is a new
  value that overflows 64 bits or exceeds \<open>2^bitSize - 1\<close>. The value is kept as a
  natural number, and the overflow of the unsigned 64-bit addition is the test
  \<open>2 ^ 64 \<le> n1\<close>.
\<close>

definition cutoff10 :: nat where
  "cutoff10 = (2 ^ 64 - 1) div 10 + 1"

fun parseUintLoop :: "nat \<Rightarrow> nat \<Rightarrow> string \<Rightarrow> numErrKind + nat" where
  "parseUintLoop maxVal n [] = Inr n"
| "parseUintLoop maxVal n (c # cs) =
     (if \<not> (of_char (CHR ''0'') \<le> (of_char c :: nat) \<and> (of_char c :: nat) \<le> of_char (CHR ''9''))
      then Inl ErrSyntax
      else let d = (of_char c :: nat) - of_char (CHR ''0'') in
        if cutoff10 \<le> n then Inl ErrRange
        else let n1 = n * 10 + d in
          if 2 ^ 64 \<le> n1 \<or> maxVal < n1 then Inl ErrRange
          else parseUintLoop maxVal n1 cs)"

definition ParseUint :: "string \<Rightarrow> nat \<Rightarrow> error + nat" where
  "ParseUint s bitSize =
     (if s = [] then Inl (NumError ''ParseUint'' s ErrSyntax)
      else (case parseUintLoop (2 ^ bitSize - 1) 0 s of
              Inl kind \<Rightarrow> Inl (NumError ''ParseUint'' s kind)
            | Inr n \<Rightarrow> Inr n))"

text \<open>\<open>strconv.FormatUint(n, 10)\<close>: the decimal digits of \<open>n\<close>, most significant first.\<close>

fun FormatUint :: "nat \<Rightarrow> string" where
  "FormatUint n =
     (if n < 10 then [char_of (of_char (CHR ''0'') + n)]
      else FormatUint (n div 10) @ [char_of (of_char (CHR ''0'') + n mod 10)])"

declare FormatUint.simps [simp del]

subsection \<open>parseMagicHeaderInterval and formatMagicHeaderInterval\<close>

definition errEmptyHeader :: error where
  "errEmptyHeader = New ''empty magic header value''"

definition errHeaderFormat :: error where
  "errHeaderFormat = New ''invalid magic header range format''"

text \<open>
  The checks are in the order of the source. \<open>parts ! 0\<close> and \<open>parts ! 1\<close> are read only
  where the length of \<open>parts\<close> allows it, as the short-circuit \<open>||\<close> and the early return
  for a single part do in the source. \<open>uint32(minRaw)\<close> keeps the low 32 bits.
\<close>

definition parseMagicHeaderInterval :: "string \<Rightarrow> error + (uint32 \<times> uint32)" where
  "parseMagicHeaderInterval value =
     (let trimmed = TrimSpace value in
      if trimmed = [] then Inl errEmptyHeader
      else let parts = Split trimmed (CHR ''-'') in
        if length parts = 0 \<or> 2 < length parts then Inl errHeaderFormat
        else if parts ! 0 = [] then Inl errHeaderFormat
        else (case ParseUint (parts ! 0) 32 of
                Inl err \<Rightarrow> Inl err
              | Inr minRaw \<Rightarrow>
                  let minValue = (word_of_nat minRaw :: uint32) in
                  if length parts = 1 then Inr (minValue, minValue)
                  else if parts ! 1 = [] then Inl errHeaderFormat
                  else (case ParseUint (parts ! 1) 32 of
                          Inl err \<Rightarrow> Inl err
                        | Inr maxRaw \<Rightarrow>
                            let maxValue = (word_of_nat maxRaw :: uint32) in
                            if maxValue < minValue then Inl errHeaderRange
                            else Inr (minValue, maxValue))))"

definition formatMagicHeaderInterval :: "uint32 \<Rightarrow> uint32 \<Rightarrow> string" where
  "formatMagicHeaderInterval minValue maxValue =
     (if minValue = maxValue then FormatUint (unat minValue)
      else FormatUint (unat minValue) @ ''-'' @ FormatUint (unat maxValue))"

subsection \<open>ParseASecConfig\<close>

text \<open>
  The section of the INI file is a finite map from key names to their text:
  \<open>section.GetKey(name)\<close> succeeds exactly on the keys of the map and
  \<open>sectionKey.String()\<close> is the text. \<open>sectionKey.Int()\<close> belongs to the INI library; it
  is the parameter \<open>keyInt\<close>, from the text of a key to an error or an \<open>int\<close>.

  \<open>aSecConfig\<close> starts as nil (\<open>None\<close>) and is allocated by the first key found:
  \<open>orZero\<close> is \<open>if aSecConfig == nil { aSecConfig = &ASecConfigType{} }\<close>.
\<close>

type_synonym iniSection = "string \<rightharpoonup> string"

definition orZero :: "ASecConfigType option \<Rightarrow> ASecConfigType" where
  "orZero aSecConfig = (case aSecConfig of None \<Rightarrow> zeroASecConfig | Some c \<Rightarrow> c)"

text \<open>
  The blocks for the integer keys share one shape, and so do those for the header keys
  and for the I keys; \<open>store\<close> is the pair of assignments that ends the block.
\<close>

definition readIntKey ::
  "(string \<Rightarrow> error + go_int) \<Rightarrow> iniSection \<Rightarrow> string \<Rightarrow>
   (go_int \<Rightarrow> ASecConfigType \<Rightarrow> ASecConfigType) \<Rightarrow>
   ASecConfigType option \<Rightarrow> error + ASecConfigType option" where
  "readIntKey keyInt section name store aSecConfig =
     (case section name of
        None \<Rightarrow> Inr aSecConfig
      | Some text \<Rightarrow>
          (case keyInt text of
             Inl err \<Rightarrow> Inl err
           | Inr value \<Rightarrow> Inr (Some (store value (orZero aSecConfig)))))"

definition readHeaderKey ::
  "iniSection \<Rightarrow> string \<Rightarrow> (uint32 \<Rightarrow> uint32 \<Rightarrow> ASecConfigType \<Rightarrow> ASecConfigType) \<Rightarrow>
   ASecConfigType option \<Rightarrow> error + ASecConfigType option" where
  "readHeaderKey section name store aSecConfig =
     (case section name of
        None \<Rightarrow> Inr aSecConfig
      | Some text \<Rightarrow>
          (case parseMagicHeaderInterval text of
             Inl err \<Rightarrow> Inl err
           | Inr (minValue, maxValue) \<Rightarrow>
               Inr (Some (store minValue maxValue (orZero aSecConfig)))))"

definition readTextKey ::
  "iniSection \<Rightarrow> string \<Rightarrow> (string \<Rightarrow> ASecConfigType \<Rightarrow> ASecConfigType) \<Rightarrow>
   ASecConfigType option \<Rightarrow> error + ASecConfigType option" where
  "readTextKey section name store aSecConfig =
     (case section name of
        None \<Rightarrow> Inr aSecConfig
      | Some value \<Rightarrow> Inr (Some (store value (orZero aSecConfig))))"

text \<open>The sixteen blocks of \<open>ParseASecConfig\<close>, in the order of the source.\<close>

definition parseSteps ::
  "(string \<Rightarrow> error + go_int) \<Rightarrow> iniSection \<Rightarrow>
   (ASecConfigType option \<Rightarrow> error + ASecConfigType option) list" where
  "parseSteps keyInt section =
     [ readIntKey keyInt section ''Jc''
         (\<lambda>v c. c\<lparr> junkPacketCount := v, hasJunkPacketCount := True \<rparr>),
       readIntKey keyInt section ''Jmin''
         (\<lambda>v c. c\<lparr> junkPacketMinSize := v, hasJunkPacketMinSize := True \<rparr>),
       readIntKey keyInt section ''Jmax''
         (\<lambda>v c. c\<lparr> junkPacketMaxSize := v, hasJunkPacketMaxSize := True \<rparr>),
       readIntKey keyInt section ''S1''
         (\<lambda>v c. c\<lparr> initPacketJunkSize := v, hasInitPacketJunkSize := True \<rparr>),
       readIntKey keyInt section ''S2''
         (\<lambda>v c. c\<lparr> responsePacketJunkSize := v, hasResponsePacketJunkSize := True \<rparr>),
       readIntKey keyInt section ''S3''
         (\<lambda>v c. c\<lparr> cookieReplyPacketJunkSize := v, hasCookieReplyPacketJunkSize := True \<rparr>),
       readIntKey keyInt section ''S4''
         (\<lambda>v c. c\<lparr> transportPacketJunkSize := v, hasTransportPacketJunkSize := True \<rparr>),
       readHeaderKey section ''H1''
         (\<lambda>lo hi c. c\<lparr> initPacketMagicHeader := lo, initPacketMagicHeaderMax := hi,
                       hasInitPacketMagicHeader := True \<rparr>),
       readHeaderKey section ''H2''
         (\<lambda>lo hi c. c\<lparr> responsePacketMagicHeader := lo, responsePacketMagicHeaderMax := hi,
                       hasResponsePacketMagicHeader := True \<rparr>),
       readHeaderKey section ''H3''
         (\<lambda>lo hi c. c\<lparr> underloadPacketMagicHeader := lo, underloadPacketMagicHeaderMax := hi,
                       hasUnderloadPacketMagicHeader := True \<rparr>),
       readHeaderKey section ''H4''
         (\<lambda>lo hi c. c\<lparr> transportPacketMagicHeader := lo, transportPacketMagicHeaderMax := hi,
                       hasTransportPacketMagicHeader := True \<rparr>),
       readTextKey section ''I1'' (\<lambda>v c. c\<lparr> i1 := Some v \<rparr>),
       readTextKey section ''I2'' (\<lambda>v c. c\<lparr> i2 := Some v \<rparr>),
       readTextKey section ''I3'' (\<lambda>v c. c\<lparr> i3 := Some v \<rparr>),
       readTextKey section ''I4'' (\<lambda>v c. c\<lparr> i4 := Some v \<rparr>),
       readTextKey section ''I5'' (\<lambda>v c. c\<lparr> i5 := Some v \<rparr>) ]"

text \<open>Running the blocks in turn; the first error is returned, as each \<open>return nil, err\<close> does.\<close>

fun runSteps ::
  "('a \<Rightarrow> error + 'a) list \<Rightarrow> 'a \<Rightarrow> error + 'a" where
  "runSteps [] a = Inr a"
| "runSteps (step # steps) a =
     (case step a of
        Inl err \<Rightarrow> Inl err
      | Inr a' \<Rightarrow> runSteps steps a')"

text \<open>\<open>readASecConfig\<close> is \<open>ParseASecConfig\<close> up to its call of \<open>ValidateASecConfig\<close>.\<close>

definition readASecConfig ::
  "(string \<Rightarrow> error + go_int) \<Rightarrow> iniSection \<Rightarrow> error + ASecConfigType option" where
  "readASecConfig keyInt section = runSteps (parseSteps keyInt section) None"

definition ParseASecConfig ::
  "(string \<Rightarrow> error + go_int) \<Rightarrow> iniSection \<Rightarrow> error + ASecConfigType option" where
  "ParseASecConfig keyInt section =
     (case readASecConfig keyInt section of
        Inl err \<Rightarrow> Inl err
      | Inr aSecConfig \<Rightarrow>
          (case ValidateASecConfig aSecConfig of
             Some err \<Rightarrow> Inl err
           | None \<Rightarrow> Inr aSecConfig))"

section \<open>Properties of the AmneziaWG configuration: definitions\<close>

subsection \<open>Packet sizes\<close>

text \<open>
  The sums \<open>148 + S1\<close>, \<open>92 + S2\<close>, \<open>64 + S3\<close>, \<open>32 + S4\<close> as integers, restricted to
  the fields that are set.
\<close>

definition setPacketSums :: "ASecConfigType \<Rightarrow> int list" where
  "setPacketSums c =
     (if hasInitPacketJunkSize c then [148 + sint (initPacketJunkSize c)] else []) @
     (if hasResponsePacketJunkSize c then [92 + sint (responsePacketJunkSize c)] else []) @
     (if hasCookieReplyPacketJunkSize c then [64 + sint (cookieReplyPacketJunkSize c)] else []) @
     (if hasTransportPacketJunkSize c then [32 + sint (transportPacketJunkSize c)] else [])"

definition junkSizeInRange :: "go_int \<Rightarrow> bool" where
  "junkSizeInRange s = (0 \<le>s s \<and> s \<le>s 1280)"

text \<open>No field other than S1 to S4 is set.\<close>

definition onlyPacketSizesSet :: "ASecConfigType \<Rightarrow> bool" where
  "onlyPacketSizesSet c =
     (\<not> hasJunkPacketCount c \<and> \<not> hasJunkPacketMinSize c \<and> \<not> hasJunkPacketMaxSize c \<and>
      \<not> hasInitPacketMagicHeader c \<and> \<not> hasResponsePacketMagicHeader c \<and>
      \<not> hasUnderloadPacketMagicHeader c \<and> \<not> hasTransportPacketMagicHeader c \<and>
      i1 c = None \<and> i2 c = None \<and> i3 c = None \<and> i4 c = None \<and> i5 c = None)"

text \<open>Every one of S1 to S4 that is set lies in \<open>[0, 1280]\<close>.\<close>

definition setSizesInRange :: "ASecConfigType \<Rightarrow> bool" where
  "setSizesInRange c =
     ((if hasInitPacketJunkSize c then junkSizeInRange (initPacketJunkSize c) else True) \<and>
      (if hasResponsePacketJunkSize c then junkSizeInRange (responsePacketJunkSize c) else True) \<and>
      (if hasCookieReplyPacketJunkSize c then junkSizeInRange (cookieReplyPacketJunkSize c) else True) \<and>
      (if hasTransportPacketJunkSize c then junkSizeInRange (transportPacketJunkSize c) else True))"

text \<open>
  A packet-size collision: two of the set entries of \<open>packetSizes\<close> have the same size
  (as the program computes it, in 64-bit arithmetic).
\<close>

definition packetSizeCollision :: "ASecConfigType \<Rightarrow> bool" where
  "packetSizeCollision c = (\<not> distinct (map size_p (filter isSet (packetSizes c))))"

text \<open>The text a collision is reported with: the long form when S3 or S4 is set.\<close>

definition packetSizeError :: "ASecConfigType \<Rightarrow> error" where
  "packetSizeError c =
     (if hasCookieReplyPacketJunkSize c \<or> hasTransportPacketJunkSize c
      then errPacketSizeLong else errPacketSizeShort)"

subsection \<open>Header intervals\<close>

definition overlapsInclusive :: "headerInterval \<Rightarrow> headerInterval \<Rightarrow> bool" where
  "overlapsInclusive a b = (min_h a \<le> max_h b \<and> min_h b \<le> max_h a)"

text \<open>Some two intervals of the list, at different positions, overlap.\<close>

definition someTwoOverlap :: "headerInterval list \<Rightarrow> bool" where
  "someTwoOverlap ivs =
     (\<exists>i \<in> {0 ..< length ivs}. \<exists>j \<in> {0 ..< length ivs}.
        i \<noteq> j \<and> overlapsInclusive (ivs ! i) (ivs ! j))"

definition boundsOrdered :: "headerInterval \<Rightarrow> bool" where
  "boundsOrdered iv = (min_h iv \<le> max_h iv)"

text \<open>
  The four effective header intervals, in the words of the specification: for each of
  H1 to H4 the interval the user supplied when the field is set, and otherwise the
  scalar default \<open>1\<close>, \<open>2\<close>, \<open>3\<close>, \<open>4\<close>. An interval is a pair of natural numbers, its
  lower and its upper bound; this list is to be compared with the one
  \<open>collectEffectiveHeaderIntervals\<close> builds.
\<close>

definition effectiveInterval :: "bool \<Rightarrow> uint32 \<Rightarrow> uint32 \<Rightarrow> nat \<Rightarrow> nat \<times> nat" where
  "effectiveInterval supplied lo hi d = (if supplied then (unat lo, unat hi) else (d, d))"

definition effectiveIntervals :: "ASecConfigType \<Rightarrow> (nat \<times> nat) list" where
  "effectiveIntervals c =
     [effectiveInterval (hasInitPacketMagicHeader c)
        (initPacketMagicHeader c) (initPacketMagicHeaderMax c) 1,
      effectiveInterval (hasResponsePacketMagicHeader c)
        (responsePacketMagicHeader c) (responsePacketMagicHeaderMax c) 2,
      effectiveInterval (hasUnderloadPacketMagicHeader c)
        (underloadPacketMagicHeader c) (underloadPacketMagicHeaderMax c) 3,
      effectiveInterval (hasTransportPacketMagicHeader c)
        (transportPacketMagicHeader c) (transportPacketMagicHeaderMax c) 4]"

text \<open>Inclusive overlap: \<open>a.min \<le> b.max\<close> and \<open>b.min \<le> a.max\<close>.\<close>

definition intervalsOverlap :: "nat \<times> nat \<Rightarrow> nat \<times> nat \<Rightarrow> bool" where
  "intervalsOverlap a b = (fst a \<le> snd b \<and> fst b \<le> snd a)"

definition someTwoIntervalsOverlap :: "(nat \<times> nat) list \<Rightarrow> bool" where
  "someTwoIntervalsOverlap ivs =
     (\<exists>i \<in> {0 ..< length ivs}. \<exists>j \<in> {0 ..< length ivs}.
        i \<noteq> j \<and> intervalsOverlap (ivs ! i) (ivs ! j))"

definition intervalOrdered :: "nat \<times> nat \<Rightarrow> bool" where
  "intervalOrdered iv = (fst iv \<le> snd iv)"

text \<open>The bounds of an interval of the program, as natural numbers.\<close>

definition intervalOf :: "headerInterval \<Rightarrow> nat \<times> nat" where
  "intervalOf iv = (unat (min_h iv), unat (max_h iv))"

text \<open>Example configurations.\<close>

definition configS1S2 :: ASecConfigType where
  "configS1S2 = zeroASecConfig
     \<lparr> initPacketJunkSize := 15, responsePacketJunkSize := 18,
       hasInitPacketJunkSize := True, hasResponsePacketJunkSize := True \<rparr>"

definition configS1S3Collide :: ASecConfigType where
  "configS1S3Collide = zeroASecConfig
     \<lparr> initPacketJunkSize := 8, cookieReplyPacketJunkSize := 92,
       hasInitPacketJunkSize := True, hasCookieReplyPacketJunkSize := True \<rparr>"

definition configS1S2Collide :: ASecConfigType where
  "configS1S2Collide = zeroASecConfig
     \<lparr> initPacketJunkSize := 0, responsePacketJunkSize := 56,
       hasInitPacketJunkSize := True, hasResponsePacketJunkSize := True \<rparr>"

definition configH1is2 :: ASecConfigType where
  "configH1is2 = zeroASecConfig
     \<lparr> initPacketMagicHeader := 2, initPacketMagicHeaderMax := 2,
       hasInitPacketMagicHeader := True \<rparr>"

definition configJc200H1is2 :: ASecConfigType where
  "configJc200H1is2 = configH1is2 \<lparr> junkPacketCount := 200, hasJunkPacketCount := True \<rparr>"

definition configRanges :: ASecConfigType where
  "configRanges = zeroASecConfig
     \<lparr> initPacketMagicHeader := 100, initPacketMagicHeaderMax := 200,
       responsePacketMagicHeader := 200, responsePacketMagicHeaderMax := 300,
       hasInitPacketMagicHeader := True, hasResponsePacketMagicHeader := True \<rparr>"

definition configH3is2 :: ASecConfigType where
  "configH3is2 = zeroASecConfig
     \<lparr> underloadPacketMagicHeader := 2, underloadPacketMagicHeaderMax := 2,
       hasUnderloadPacketMagicHeader := True \<rparr>"

definition configH4from3to9 :: ASecConfigType where
  "configH4from3to9 = zeroASecConfig
     \<lparr> transportPacketMagicHeader := 3, transportPacketMagicHeaderMax := 9,
       hasTransportPacketMagicHeader := True \<rparr>"

definition configHeadersApart :: ASecConfigType where
  "configHeadersApart = zeroASecConfig
     \<lparr> initPacketMagicHeader := 10, initPacketMagicHeaderMax := 10,
       responsePacketMagicHeader := 20, responsePacketMagicHeaderMax := 30,
       underloadPacketMagicHeader := 40, underloadPacketMagicHeaderMax := 40,
       transportPacketMagicHeader := 50, transportPacketMagicHeaderMax := 60,
       hasInitPacketMagicHeader := True, hasResponsePacketMagicHeader := True,
       hasUnderloadPacketMagicHeader := True, hasTransportPacketMagicHeader := True \<rparr>"

subsection \<open>Header literals\<close>

text \<open>
  Parsing a literal and emitting the interval again. The literal of a scalar \<open>N\<close> is its
  decimal numeral, that of a range \<open>N-M\<close> the two numerals around a dash.
\<close>

definition parseThenEmit :: "string \<Rightarrow> error + string" where
  "parseThenEmit literal =
     (case parseMagicHeaderInterval literal of
        Inl err \<Rightarrow> Inl err
      | Inr (minValue, maxValue) \<Rightarrow> Inr (formatMagicHeaderInterval minValue maxValue))"

definition scalarLiteral :: "uint32 \<Rightarrow> string" where
  "scalarLiteral n = FormatUint (unat n)"

definition rangeLiteral :: "uint32 \<Rightarrow> uint32 \<Rightarrow> string" where
  "rangeLiteral n m = FormatUint (unat n) @ ''-'' @ FormatUint (unat m)"

text \<open>The bytes \<open>0\<close> to \<open>9\<close>.\<close>

definition isDecimalDigit :: "char \<Rightarrow> bool" where
  "isDecimalDigit c = (48 \<le> (of_char c :: nat) \<and> (of_char c :: nat) \<le> 57)"

subsection \<open>Parsed configurations\<close>

text \<open>Every header field that is set has its lower bound at most its upper bound.\<close>

definition setHeadersOrdered :: "ASecConfigType option \<Rightarrow> bool" where
  "setHeadersOrdered aSecConfig =
     (case aSecConfig of
        None \<Rightarrow> True
      | Some c \<Rightarrow>
          (if hasInitPacketMagicHeader c
           then initPacketMagicHeader c \<le> initPacketMagicHeaderMax c else True) \<and>
          (if hasResponsePacketMagicHeader c
           then responsePacketMagicHeader c \<le> responsePacketMagicHeaderMax c else True) \<and>
          (if hasUnderloadPacketMagicHeader c
           then underloadPacketMagicHeader c \<le> underloadPacketMagicHeaderMax c else True) \<and>
          (if hasTransportPacketMagicHeader c
           then transportPacketMagicHeader c \<le> transportPacketMagicHeaderMax c else True))"

definition sectionH1Range :: iniSection where
  "sectionH1Range = [''H1'' \<mapsto> ''100-200'', ''S1'' \<mapsto> ''15'']"

definition keyIntFifteen :: "string \<Rightarrow> error + go_int" where
  "keyIntFifteen text = (if text = ''15'' then Inr 15 else Inl (New ''not an integer''))"

definition configParsedExample :: ASecConfigType where
  "configParsedExample = zeroASecConfig
     \<lparr> initPacketJunkSize := 15, hasInitPacketJunkSize := True,
       initPacketMagicHeader := 100, initPacketMagicHeaderMax := 200,
       hasInitPacketMagicHeader := True \<rparr>"

section \<open>The IPC request (CreateIPCRequest)\<close>

text \<open>
  Modelled from the spec: the declarations of \<open>DeviceConfig\<close> and of its peers are
  outside the sources at hand. Their fields are the ones \<open>CreateIPCRequest\<close> reads, with
  the types its format verbs ask for: secret key, optional listen port, optional
  AmneziaWG configuration, peers (public key, keep-alive, preshared key, optional
  endpoint, allowed prefixes), DNS servers, device addresses, MTU. An address or a
  prefix stands for the text its \<open>String()\<close> gives. The peer's field \<open>Endpoint\<close> and the
  fields \<open>DNS\<close> and \<open>MTU\<close> of \<open>DeviceSetting\<close> carry a suffix.
\<close>

record PeerConfig =
  PublicKey :: string
  KeepAlive :: go_int
  PreSharedKey :: string
  Endpoint_p :: "string option"
  AllowedIPs :: "string list"

record DeviceConfig =
  SecretKey :: string
  ListenPort :: "go_int option"
  ASecConfig :: "ASecConfigType option"
  Peers :: "PeerConfig list"
  DNS :: "string list"
  Endpoint :: "string list"
  MTU :: go_int

record DeviceSetting =
  IpcRequest :: string
  DNS_s :: "string list"
  DeviceAddr :: "string list"
  MTU_s :: go_int

definition newline :: char where
  "newline = CHR 0x0A"

text \<open>\<open>fmt.Sprintf("%d", v)\<close> for an \<open>int\<close>: a minus sign for a negative value, then the digits.\<close>

definition Sprintf_d :: "go_int \<Rightarrow> string" where
  "Sprintf_d v =
     (if v <s 0 then ''-'' @ FormatUint (nat (- sint v)) else FormatUint (nat (sint v)))"

text \<open>
  What the block \<open>if conf.ASecConfig != nil\<close> writes to \<open>aSecBuilder\<close>: one
  \<open>WriteString\<close> for each field that is set, in the order of the source.
\<close>

definition aSecBuilderString :: "ASecConfigType \<Rightarrow> string" where
  "aSecBuilderString aSecConfig =
     (if hasJunkPacketCount aSecConfig
      then ''jc='' @ Sprintf_d (junkPacketCount aSecConfig) @ [newline] else []) @
     (if hasJunkPacketMinSize aSecConfig
      then ''jmin='' @ Sprintf_d (junkPacketMinSize aSecConfig) @ [newline] else []) @
     (if hasJunkPacketMaxSize aSecConfig
      then ''jmax='' @ Sprintf_d (junkPacketMaxSize aSecConfig) @ [newline] else []) @
     (if hasInitPacketJunkSize aSecConfig
      then ''s1='' @ Sprintf_d (initPacketJunkSize aSecConfig) @ [newline] else []) @
     (if hasResponsePacketJunkSize aSecConfig
      then ''s2='' @ Sprintf_d (responsePacketJunkSize aSecConfig) @ [newline] else []) @
     (if hasCookieReplyPacketJunkSize aSecConfig
      then ''s3='' @ Sprintf_d (cookieReplyPacketJunkSize aSecConfig) @ [newline] else []) @
     (if hasTransportPacketJunkSize aSecConfig
      then ''s4='' @ Sprintf_d (transportPacketJunkSize aSecConfig) @ [newline] else []) @
     (if hasInitPacketMagicHeader aSecConfig
      then ''h1='' @ formatMagicHeaderInterval (initPacketMagicHeader aSecConfig)
                      (initPacketMagicHeaderMax aSecConfig) @ [newline] else []) @
     (if hasResponsePacketMagicHeader aSecConfig
      then ''h2='' @ formatMagicHeaderInterval (responsePacketMagicHeader aSecConfig)
                      (responsePacketMagicHeaderMax aSecConfig) @ [newline] else []) @
     (if hasUnderloadPacketMagicHeader aSecConfig
      then ''h3='' @ formatMagicHeaderInterval (underloadPacketMagicHeader aSecConfig)
                      (underloadPacketMagicHeaderMax aSecConfig) @ [newline] else []) @
     (if hasTransportPacketMagicHeader aSecConfig
      then ''h4='' @ formatMagicHeaderInterval (transportPacketMagicHeader aSecConfig)
                      (transportPacketMagicHeaderMax aSecConfig) @ [newline] else []) @
     (case i1 aSecConfig of None \<Rightarrow> [] | Some v \<Rightarrow> ''i1='' @ v @ [newline]) @
     (case i2 aSecConfig of None \<Rightarrow> [] | Some v \<Rightarrow> ''i2='' @ v @ [newline]) @
     (case i3 aSecConfig of None \<Rightarrow> [] | Some v \<Rightarrow> ''i3='' @ v @ [newline]) @
     (case i4 aSecConfig of None \<Rightarrow> [] | Some v \<Rightarrow> ''i4='' @ v @ [newline]) @
     (case i5 aSecConfig of None \<Rightarrow> [] | Some v \<Rightarrow> ''i5='' @ v @ [newline])"

text \<open>
  What one turn of the loop over \<open>conf.Peers\<close> writes. \<open>heredoc.Doc\<close> removes the first
  line break and the common indentation of its argument, which leaves three lines.
\<close>

definition peerRequest :: "PeerConfig \<Rightarrow> string" where
  "peerRequest peer =
     ''public_key='' @ PublicKey peer @ [newline] @
     ''persistent_keepalive_interval='' @ Sprintf_d (KeepAlive peer) @ [newline] @
     ''preshared_key='' @ PreSharedKey peer @ [newline] @
     (case Endpoint_p peer of None \<Rightarrow> [] | Some e \<Rightarrow> ''endpoint='' @ e @ [newline]) @
     (if 0 < length (AllowedIPs peer)
      then concat (map (\<lambda>ip. ''allowed_ip='' @ ip @ [newline]) (AllowedIPs peer))
      else ''allowed_ip=0.0.0.0/0'' @ [newline] @ ''allowed_ip=::0/0'' @ [newline])"

text \<open>\<open>CreateIPCRequest\<close> has no failing path: its error is always nil.\<close>

definition CreateIPCRequest :: "DeviceConfig \<Rightarrow> error + DeviceSetting" where
  "CreateIPCRequest conf =
     (let request =
            ''private_key='' @ SecretKey conf @ [newline] @
            (case ListenPort conf of
               None \<Rightarrow> []
             | Some port \<Rightarrow> ''listen_port='' @ Sprintf_d port @ [newline]) @
            (case ASecConfig conf of
               None \<Rightarrow> []
             | Some aSecConfig \<Rightarrow> aSecBuilderString aSecConfig) @
            concat (map peerRequest (Peers conf))
      in Inr \<lparr> IpcRequest = request, DNS_s = DNS conf, DeviceAddr = Endpoint conf,
               MTU_s = MTU conf \<rparr>)"

section \<open>Properties of the IPC request: definitions\<close>

text \<open>The AmneziaWG fields, their fixed order, their keys and their printed values.\<close>

datatype awgField =
  Jc | Jmin | Jmax | S1 | S2 | S3 | S4 | H1 | H2 | H3 | H4 | I1 | I2 | I3 | I4 | I5

definition awgFieldOrder :: "awgField list" where
  "awgFieldOrder = [Jc, Jmin, Jmax, S1, S2, S3, S4, H1, H2, H3, H4, I1, I2, I3, I4, I5]"

fun fieldKey :: "awgField \<Rightarrow> string" where
  "fieldKey Jc = ''jc''"
| "fieldKey Jmin = ''jmin''"
| "fieldKey Jmax = ''jmax''"
| "fieldKey S1 = ''s1''"
| "fieldKey S2 = ''s2''"
| "fieldKey S3 = ''s3''"
| "fieldKey S4 = ''s4''"
| "fieldKey H1 = ''h1''"
| "fieldKey H2 = ''h2''"
| "fieldKey H3 = ''h3''"
| "fieldKey H4 = ''h4''"
| "fieldKey I1 = ''i1''"
| "fieldKey I2 = ''i2''"
| "fieldKey I3 = ''i3''"
| "fieldKey I4 = ''i4''"
| "fieldKey I5 = ''i5''"

fun fieldIsSet :: "ASecConfigType \<Rightarrow> awgField \<Rightarrow> bool" where
  "fieldIsSet c Jc = hasJunkPacketCount c"
| "fieldIsSet c Jmin = hasJunkPacketMinSize c"
| "fieldIsSet c Jmax = hasJunkPacketMaxSize c"
| "fieldIsSet c S1 = hasInitPacketJunkSize c"
| "fieldIsSet c S2 = hasResponsePacketJunkSize c"
| "fieldIsSet c S3 = hasCookieReplyPacketJunkSize c"
| "fieldIsSet c S4 = hasTransportPacketJunkSize c"
| "fieldIsSet c H1 = hasInitPacketMagicHeader c"
| "fieldIsSet c H2 = hasResponsePacketMagicHeader c"
| "fieldIsSet c H3 = hasUnderloadPacketMagicHeader c"
| "fieldIsSet c H4 = hasTransportPacketMagicHeader c"
| "fieldIsSet c I1 = (i1 c \<noteq> None)"
| "fieldIsSet c I2 = (i2 c \<noteq> None)"
| "fieldIsSet c I3 = (i3 c \<noteq> None)"
| "fieldIsSet c I4 = (i4 c \<noteq> None)"
| "fieldIsSet c I5 = (i5 c \<noteq> None)"

definition verbatim :: "string option \<Rightarrow> string" where
  "verbatim p = (case p of None \<Rightarrow> [] | Some v \<Rightarrow> v)"

text \<open>
  A scalar header prints as \<open>N\<close> and a range as \<open>N-M\<close>; this is the spec's wording, to be
  compared with \<open>formatMagicHeaderInterval\<close>.
\<close>

definition headerText :: "uint32 \<Rightarrow> uint32 \<Rightarrow> string" where
  "headerText lo hi = (if lo = hi then scalarLiteral lo else rangeLiteral lo hi)"

fun fieldValue :: "ASecConfigType \<Rightarrow> awgField \<Rightarrow> string" where
  "fieldValue c Jc = Sprintf_d (junkPacketCount c)"
| "fieldValue c Jmin = Sprintf_d (junkPacketMinSize c)"
| "fieldValue c Jmax = Sprintf_d (junkPacketMaxSize c)"
| "fieldValue c S1 = Sprintf_d (initPacketJunkSize c)"
| "fieldValue c S2 = Sprintf_d (responsePacketJunkSize c)"
| "fieldValue c S3 = Sprintf_d (cookieReplyPacketJunkSize c)"
| "fieldValue c S4 = Sprintf_d (transportPacketJunkSize c)"
| "fieldValue c H1 = headerText (initPacketMagicHeader c) (initPacketMagicHeaderMax c)"
| "fieldValue c H2 = headerText (responsePacketMagicHeader c) (responsePacketMagicHeaderMax c)"
| "fieldValue c H3 = headerText (underloadPacketMagicHeader c) (underloadPacketMagicHeaderMax c)"
| "fieldValue c H4 = headerText (transportPacketMagicHeader c) (transportPacketMagicHeaderMax c)"
| "fieldValue c I1 = verbatim (i1 c)"
| "fieldValue c I2 = verbatim (i2 c)"
| "fieldValue c I3 = verbatim (i3 c)"
| "fieldValue c I4 = verbatim (i4 c)"
| "fieldValue c I5 = verbatim (i5 c)"

definition awgKeys :: "string list" where
  "awgKeys = map fieldKey awgFieldOrder"

text \<open>The AmneziaWG lines a configuration calls for: the set fields, in the fixed order.\<close>

definition awgKeyValues :: "ASecConfigType option \<Rightarrow> (string \<times> string) list" where
  "awgKeyValues a =
     (case a of
        None \<Rightarrow> []
      | Some c \<Rightarrow> map (\<lambda>f. (fieldKey f, fieldValue c f)) (filter (fieldIsSet c) awgFieldOrder))"

definition peerKeyValues :: "PeerConfig \<Rightarrow> (string \<times> string) list" where
  "peerKeyValues peer =
     [(''public_key'', PublicKey peer),
      (''persistent_keepalive_interval'', Sprintf_d (KeepAlive peer)),
      (''preshared_key'', PreSharedKey peer)] @
     (case Endpoint_p peer of None \<Rightarrow> [] | Some e \<Rightarrow> [(''endpoint'', e)]) @
     (if AllowedIPs peer = []
      then [(''allowed_ip'', ''0.0.0.0/0''), (''allowed_ip'', ''::0/0'')]
      else map (\<lambda>ip. (''allowed_ip'', ip)) (AllowedIPs peer))"

text \<open>All the lines of the request, as pairs of key and value, in order.\<close>

definition ipcKeyValues :: "DeviceConfig \<Rightarrow> (string \<times> string) list" where
  "ipcKeyValues conf =
     [(''private_key'', SecretKey conf)] @
     (case ListenPort conf of None \<Rightarrow> [] | Some port \<Rightarrow> [(''listen_port'', Sprintf_d port)]) @
     awgKeyValues (ASecConfig conf) @
     concat (map peerKeyValues (Peers conf))"

definition renderLine :: "string \<times> string \<Rightarrow> string" where
  "renderLine kv = fst kv @ ''='' @ snd kv @ [newline]"

text \<open>
  Reading a text back: \<open>ipcLines\<close> cuts it at the line breaks (a last line may lack
  its break), \<open>lineKeyValue\<close> cuts a line at its first equals sign.
\<close>

fun ipcLines :: "string \<Rightarrow> string list" where
  "ipcLines [] = []"
| "ipcLines (c # cs) =
     (if c = newline then [] # ipcLines cs
      else (case ipcLines cs of
              [] \<Rightarrow> [[c]]
            | l # ls \<Rightarrow> (c # l) # ls))"

definition lineKeyValue :: "string \<Rightarrow> string \<times> string" where
  "lineKeyValue l =
     (takeWhile (\<lambda>c. c \<noteq> CHR ''='') l, drop 1 (dropWhile (\<lambda>c. c \<noteq> CHR ''='') l))"

definition singleLine :: "string \<Rightarrow> bool" where
  "singleLine v = (newline \<notin> set v)"

text \<open>No text of the configuration that goes into the request holds a line break.\<close>

definition singleLinePeer :: "PeerConfig \<Rightarrow> bool" where
  "singleLinePeer peer =
     (singleLine (PublicKey peer) \<and> singleLine (PreSharedKey peer) \<and>
      singleLine (verbatim (Endpoint_p peer)) \<and> list_all singleLine (AllowedIPs peer))"

definition singleLineConfig :: "DeviceConfig \<Rightarrow> bool" where
  "singleLineConfig conf =
     (singleLine (SecretKey conf) \<and>
      (case ASecConfig conf of
         None \<Rightarrow> True
       | Some c \<Rightarrow> singleLine (verbatim (i1 c)) \<and> singleLine (verbatim (i2 c)) \<and>
                  singleLine (verbatim (i3 c)) \<and> singleLine (verbatim (i4 c)) \<and>
                  singleLine (verbatim (i5 c))) \<and>
      list_all singleLinePeer (Peers conf))"

definition isAwgKey :: "string \<times> string \<Rightarrow> bool" where
  "isAwgKey kv = (fst kv \<in> set awgKeys)"

text \<open>
  An example with fields of every kind: the junk fields, two sizes, a scalar and a
  range header, two I fields; a listen port and a peer with two allowed prefixes.
\<close>

definition configManyFields :: ASecConfigType where
  "configManyFields = zeroASecConfig
     \<lparr> junkPacketCount := 4, junkPacketMinSize := 40, junkPacketMaxSize := 70,
       initPacketJunkSize := 15, responsePacketJunkSize := 18,
       initPacketMagicHeader := 5, initPacketMagicHeaderMax := 5,
       responsePacketMagicHeader := 100, responsePacketMagicHeaderMax := 200,
       hasJunkPacketCount := True, hasJunkPacketMinSize := True, hasJunkPacketMaxSize := True,
       hasInitPacketJunkSize := True, hasResponsePacketJunkSize := True,
       hasInitPacketMagicHeader := True, hasResponsePacketMagicHeader := True,
       i1 := Some ''<b 0xA1B2C3D4E5F6><c>'', i3 := Some ''<r 16>'' \<rparr>"

definition deviceManyFields :: DeviceConfig where
  "deviceManyFields =
     \<lparr> SecretKey = ''00ff'', ListenPort = Some 51820, ASecConfig = Some configManyFields,
       Peers = [\<lparr> PublicKey = ''ab01'', KeepAlive = 25, PreSharedKey = ''0000'',
                  Endpoint_p = Some ''94.140.11.15:51820'',
                  AllowedIPs = [''10.0.0.0/8'', ''fd00::/8''] \<rparr>],
       DNS = [''1.1.1.1''], Endpoint = [''10.5.0.2''], MTU = 1420 \<rparr>"

text \<open>
  An example with a line break inside \<open>I1\<close>: the text of the key is \<open><b 0x01>\<close>, a line
  break, and \<open>jc=5\<close>. No other field is set.
\<close>

definition textLineBreak :: string where
  "textLineBreak = ''<b 0x01>'' @ [newline] @ ''jc=5''"

definition sectionLineBreak :: iniSection where
  "sectionLineBreak = [''I1'' \<mapsto> textLineBreak]"

definition configLineBreak :: ASecConfigType where
  "configLineBreak = zeroASecConfig \<lparr> i1 := Some textLineBreak \<rparr>"

definition deviceLineBreak :: DeviceConfig where
  "deviceLineBreak =
     \<lparr> SecretKey = ''00ff'', ListenPort = None, ASecConfig = Some configLineBreak,
       Peers = [\<lparr> PublicKey = ''ab01'', KeepAlive = 25, PreSharedKey = ''0000'',
                  Endpoint_p = Some ''94.140.11.15:51820'', AllowedIPs = [] \<rparr>],
       DNS = [''1.1.1.1''], Endpoint = [''10.5.0.2''], MTU = 1420 \<rparr>"

text \<open>A pair that \<open>ipcLines\<close> and \<open>lineKeyValue\<close> read back from its line.\<close>

definition readableLine :: "string \<times> string \<Rightarrow> bool" where
  "readableLine kv =
     (CHR ''='' \<notin> set (fst kv) \<and> singleLine (fst kv) \<and> singleLine (snd kv))"

section \<open>The SOCKS5 UDP relay (socks5\_udp.go)\<close>

subsection \<open>Bytes, addresses and time\<close>

type_synonym byte = "8 word"
type_synonym uint16 = "16 word"

text \<open>
  A \<open>net.IP\<close> is its list of bytes; the nil slice is the empty list. \<open>time.Time\<close> and
  \<open>time.Duration\<close> are counts of nanoseconds. \<open>t.Sub(u)\<close> is the difference, kept
  within the range of a 64-bit \<open>Duration\<close>; \<open>time.Since(u)\<close> is \<open>Sub\<close> from the
  current time, and \<open>t.Before(u)\<close> is \<open>t < u\<close>.
\<close>

type_synonym IP = "byte list"
type_synonym time = int

definition maxDuration :: int where
  "maxDuration = 2 ^ 63 - 1"

definition minDuration :: int where
  "minDuration = - (2 ^ 63)"

definition Sub :: "time \<Rightarrow> time \<Rightarrow> int" where
  "Sub t u =
     (let d = t - u in
      if maxDuration < d then maxDuration
      else if d < minDuration then minDuration
      else d)"

text \<open>\<open>string(b)\<close> for a byte slice.\<close>

definition bytesToString :: "byte list \<Rightarrow> string" where
  "bytesToString b = map (\<lambda>x. char_of (unat x)) b"

text \<open>\<open>binary.BigEndian.Uint16\<close> of a slice of two bytes.\<close>

definition BigEndian_Uint16 :: "byte \<Rightarrow> byte \<Rightarrow> uint16" where
  "BigEndian_Uint16 b0 b1 = ucast b1 OR push_bit 8 (ucast b0)"

text \<open>
  \<open>net.IPv4(a, b, c, d)\<close> is the 16-byte form of the address. \<open>ip.To4()\<close> is the 4-byte
  form of a 4-byte address or of such a 16-byte one, nil (\<open>None\<close>) otherwise.
\<close>

definition IPv4 :: "byte \<Rightarrow> byte \<Rightarrow> byte \<Rightarrow> byte \<Rightarrow> IP" where
  "IPv4 a b c d = replicate 10 0 @ [0xff, 0xff, a, b, c, d]"

definition To4 :: "IP \<Rightarrow> IP option" where
  "To4 ip =
     (if length ip = 4 then Some ip
      else if length ip = 16 \<and> take 10 ip = replicate 10 0 \<and> ip ! 10 = 0xff \<and> ip ! 11 = 0xff
      then Some (drop 12 ip)
      else None)"

text \<open>
  \<open>ip.String()\<close>. An address with a 4-byte form prints as four decimal numbers between
  dots. Another 16-byte address prints as its eight 16-bit groups in lower-case
  hexadecimal without leading zeros, between colons, the first longest run of two or
  more zero groups replaced by \<open>::\<close>. The empty slice prints as \<open><nil>\<close>, a slice
  of another length as \<open>?\<close> and its bytes in hexadecimal.
\<close>

definition hexDigit :: "nat \<Rightarrow> char" where
  "hexDigit d = (if d < 10 then char_of (of_char (CHR ''0'') + d)
                 else char_of (of_char (CHR ''a'') + (d - 10)))"

fun hexString :: "nat \<Rightarrow> string" where
  "hexString n =
     (if n < 16 then [hexDigit n] else hexString (n div 16) @ [hexDigit (n mod 16)])"

declare hexString.simps [simp del]

fun join :: "string \<Rightarrow> string list \<Rightarrow> string" where
  "join sep [] = []"
| "join sep [x] = x"
| "join sep (x # y # ys) = x @ sep @ join sep (y # ys)"

fun groups16 :: "byte list \<Rightarrow> nat list" where
  "groups16 (hi # lo # rest) = (unat hi * 256 + unat lo) # groups16 rest"
| "groups16 rest = []"

fun zeroRun :: "nat list \<Rightarrow> nat" where
  "zeroRun [] = 0"
| "zeroRun (g # gs) = (if g = 0 then Suc (zeroRun gs) else 0)"

text \<open>
  The search for the zero run: at each position \<open>i\<close> the zero groups from there on are
  counted, and a run of at least two that is longer than the best so far replaces
  it. \<open>(255, 255)\<close> stands for no run.
\<close>

fun longestZeroRun :: "nat \<Rightarrow> nat list \<Rightarrow> nat \<times> nat \<Rightarrow> nat \<times> nat" where
  "longestZeroRun i [] best = best"
| "longestZeroRun i (g # gs) best =
     (let l = zeroRun (g # gs) in
      longestZeroRun (Suc i) gs
        (if 2 \<le> l \<and> snd best - fst best < l then (i, i + l) else best))"

definition string6 :: "IP \<Rightarrow> string" where
  "string6 ip =
     (let gs = groups16 ip;
          (zeroStart, zeroEnd) = longestZeroRun 0 gs (255, 255)
      in if zeroStart = 255 then join '':'' (map hexString gs)
         else join '':'' (map hexString (take zeroStart gs)) @ ''::'' @
              join '':'' (map hexString (drop zeroEnd gs)))"

definition string4 :: "IP \<Rightarrow> string" where
  "string4 p4 = join ''.'' (map (\<lambda>b. FormatUint (unat b)) p4)"

definition IP_String :: "IP \<Rightarrow> string" where
  "IP_String ip =
     (if length ip = 0 then ''<nil>''
      else if length ip \<noteq> 4 \<and> length ip \<noteq> 16
      then ''?'' @ concat (map (\<lambda>b. [hexDigit (unat b div 16), hexDigit (unat b mod 16)]) ip)
      else (case To4 ip of
              Some p4 \<Rightarrow> string4 p4
            | None \<Rightarrow> string6 ip))"

subsection \<open>parseSocks5HeaderFast\<close>

text \<open>
  The result is \<open>(host, port, headerLen, ok)\<close>. The bytes of \<open>data\<close> are read only
  after the length test that guards them.
\<close>

definition rejected :: "string \<times> uint16 \<times> nat \<times> bool" where
  "rejected = ([], 0, 0, False)"

definition parseSocks5HeaderFast :: "byte list \<Rightarrow> string \<times> uint16 \<times> nat \<times> bool" where
  "parseSocks5HeaderFast data =
     (if length data < 10 then rejected
      else if data ! 0 \<noteq> 0x00 \<or> data ! 1 \<noteq> 0x00 \<or> data ! 2 \<noteq> 0x00 then rejected
      else if data ! 3 = 0x01 then
        (if length data < 10 then rejected
         else (IP_String (IPv4 (data ! 4) (data ! 5) (data ! 6) (data ! 7)),
               BigEndian_Uint16 (data ! 8) (data ! 9), 10, True))
      else if data ! 3 = 0x03 then
        (let domainLen = unat (data ! 4) in
         if length data < 7 + domainLen then rejected
         else (bytesToString (take domainLen (drop 5 data)),
               BigEndian_Uint16 (data ! (5 + domainLen)) (data ! (5 + domainLen + 1)),
               7 + domainLen, True))
      else if data ! 3 = 0x04 then
        (if length data < 22 then rejected
         else (IP_String (take 16 (drop 4 data)),
               BigEndian_Uint16 (data ! 20) (data ! 21), 22, True))
      else rejected)"

text \<open>
  The start of \<open>handleSocks5UDPPacketSync\<close>: a datagram that does not parse is dropped
  (\<open>None\<close>); otherwise the payload is \<open>data[headerLen:]\<close>.
\<close>

definition parseDatagram :: "byte list \<Rightarrow> (string \<times> uint16 \<times> byte list) option" where
  "parseDatagram data =
     (case parseSocks5HeaderFast data of
        (host, port, headerLen, ok) \<Rightarrow>
          if \<not> ok then None else Some (host, port, drop headerLen data))"

subsection \<open>The DNS cache\<close>

record cacheEntry =
  ip :: IP
  timestamp :: time

record DNSCache =
  cache :: "string \<rightharpoonup> cacheEntry"
  ttl :: int

definition NewDNSCache :: "int \<Rightarrow> DNSCache" where
  "NewDNSCache t = \<lparr> cache = Map.empty, ttl = t \<rparr>"

text \<open>The loop that takes the first candidate with a 4-byte form; \<open>None\<close> is the nil \<open>ip\<close>.\<close>

fun firstIPv4 :: "IP list \<Rightarrow> IP option" where
  "firstIPv4 [] = None"
| "firstIPv4 (candidate # rest) =
     (if To4 candidate \<noteq> None then Some candidate else firstIPv4 rest)"

text \<open>
  \<open>Resolve\<close>. Its surroundings are arguments: \<open>now\<close> is the clock when the cache is
  read, \<open>lookup\<close> the result \<open>net.LookupIP(host)\<close> gives if it is called, \<open>now'\<close> the clock
  when the entry is stored. The result is the returned pair and the cache afterwards.
\<close>

definition Resolve ::
  "DNSCache \<Rightarrow> string \<Rightarrow> time \<Rightarrow> error + IP list \<Rightarrow> time \<Rightarrow> (error + IP) \<times> DNSCache" where
  "Resolve d host now lookup now' =
     (case (case cache d host of
              None \<Rightarrow> None
            | Some entry \<Rightarrow> if Sub now (timestamp entry) < ttl d then Some (ip entry) else None) of
        Some cached \<Rightarrow> (Inr cached, d)
      | None \<Rightarrow>
          (case lookup of
             Inl err \<Rightarrow> (Inl (Wrap (''DNS lookup failed for '' @ host) err), d)
           | Inr ips \<Rightarrow>
               if length ips = 0 then (Inl (New (''no IP found for '' @ host)), d)
               else let chosen = (case firstIPv4 ips of Some c \<Rightarrow> c | None \<Rightarrow> ips ! 0)
                    in (Inr chosen,
                        d\<lparr> cache := (cache d)(host \<mapsto> \<lparr> ip = chosen, timestamp = now' \<rparr>) \<rparr>)))"

subsection \<open>The connection pool\<close>

text \<open>
  A \<open>*UDPConnection\<close> is a reference into a store of connection objects, so that an
  object outlives its removal from the pool and may stand under several keys. Of a
  connection the pool reads and writes \<open>lastUsed\<close>, the channel \<open>readerDone\<close> and the
  tunnel connection \<open>conn\<close>: \<open>readerDone\<close> is the number of values waiting in the channel,
  which has room for one, and \<open>connClosed\<close> tells whether \<open>conn.Close()\<close> has been called.
  The other fields (\<open>client\<close>, \<open>targetAddr\<close>, \<open>resolvedIP\<close>, \<open>writeMutex\<close>) are left out.
  References are never nil. The sizes of the pool are integers without a bound, and
  the locks are left out: the operations run one after the other.
\<close>

type_synonym connRef = nat

record UDPConnection =
  lastUsed :: time
  readerDone :: nat
  connClosed :: bool

record UDPConnectionPool =
  connections :: "string \<rightharpoonup> connRef"
  dnsCache :: DNSCache
  maxSize :: int
  currentSize :: int
  mtu :: int
  creationLock :: "string set"

record poolState =
  pool :: UDPConnectionPool
  heap :: "connRef \<Rightarrow> UDPConnection"

definition NewUDPConnectionPool :: "int \<Rightarrow> int \<Rightarrow> UDPConnectionPool" where
  "NewUDPConnectionPool maxSize' mtu' =
     \<lparr> connections = Map.empty, dnsCache = NewDNSCache (5 * 1000000000),
       maxSize = maxSize', currentSize = 0, mtu = mtu', creationLock = {} \<rparr>"

text \<open>
  \<open>select { case conn.readerDone <- true: default: }\<close>: the value is put into the
  channel if there is room, and dropped otherwise. \<open>Close\<close> is \<open>conn.conn.Close()\<close>.
\<close>

definition trySend :: "UDPConnection \<Rightarrow> UDPConnection" where
  "trySend c = (if readerDone c < 1 then c\<lparr> readerDone := readerDone c + 1 \<rparr> else c)"

definition Close :: "UDPConnection \<Rightarrow> UDPConnection" where
  "Close c = c\<lparr> connClosed := True \<rparr>"

text \<open>\<open>Get\<close> returns \<open>(conn, exists)\<close>; the connection is \<open>None\<close> when \<open>exists\<close> is false.\<close>

definition Get :: "string \<Rightarrow> time \<Rightarrow> poolState \<Rightarrow> connRef option \<times> poolState" where
  "Get key now s =
     (case connections (pool s) key of
        Some conn \<Rightarrow>
          (Some conn, s\<lparr> heap := (heap s)(conn := (heap s conn)\<lparr> lastUsed := now \<rparr>) \<rparr>)
      | None \<Rightarrow> (None, s))"

definition Delete :: "string \<Rightarrow> poolState \<Rightarrow> poolState" where
  "Delete key s =
     (let s' =
        (case connections (pool s) key of
           Some conn \<Rightarrow>
             s\<lparr> heap := (heap s)(conn := Close (trySend (heap s conn))),
                pool := (pool s)\<lparr> connections := (connections (pool s))(key := None),
                                  currentSize := currentSize (pool s) - 1 \<rparr> \<rparr>
         | None \<Rightarrow> s)
      in s'\<lparr> pool := (pool s')\<lparr> creationLock := creationLock (pool s') - {key} \<rparr> \<rparr>)"

text \<open>
  A \<open>range\<close> over the map visits every key once, in an order the language leaves
  open. The order is an argument, the list \<open>order\<close> of the keys; \<open>rangeMap\<close> gives the
  pairs of key and connection the loop sees.
\<close>

definition rangeMap :: "string list \<Rightarrow> (string \<rightharpoonup> connRef) \<Rightarrow> (string \<times> connRef) list" where
  "rangeMap order m = List.map_filter (\<lambda>key. map_option (Pair key) (m key)) order"

text \<open>The second loop of \<open>cleanupOldLocked\<close>, over \<open>toDelete\<close>.\<close>

fun deleteOld :: "string list \<Rightarrow> poolState \<Rightarrow> poolState" where
  "deleteOld [] s = s"
| "deleteOld (key # rest) s =
     (let s' =
        (case connections (pool s) key of
           Some conn \<Rightarrow>
             s\<lparr> heap := (heap s)(conn := Close (trySend (heap s conn))),
                pool := (pool s)\<lparr> connections := (connections (pool s))(key := None),
                                  currentSize := currentSize (pool s) - 1 \<rparr> \<rparr>
         | None \<Rightarrow> s)
      in deleteOld rest
           (s'\<lparr> pool := (pool s')\<lparr> creationLock := creationLock (pool s') - {key} \<rparr> \<rparr>))"

definition cleanupOldLocked :: "int \<Rightarrow> time \<Rightarrow> string list \<Rightarrow> poolState \<Rightarrow> poolState" where
  "cleanupOldLocked maxAge now order s =
     (let toDelete =
            map fst (filter (\<lambda>(key, conn). maxAge < Sub now (lastUsed (heap s conn)))
                       (rangeMap order (connections (pool s))))
      in deleteOld toDelete s)"

definition Cleanup :: "int \<Rightarrow> time \<Rightarrow> string list \<Rightarrow> poolState \<Rightarrow> poolState" where
  "Cleanup maxAge now order s = cleanupOldLocked maxAge now order s"

text \<open>
  The scan of \<open>cleanupOldestLocked\<close>. \<open>replaceNewer\<close> is the inner loop over \<open>oldest\<close>: the
  first \<open>oldKey\<close> with \<open>conn.lastUsed.Before(p.connections[oldKey].lastUsed)\<close> is replaced by
  \<open>key\<close>, and the loop ends. \<open>p.connections[oldKey]\<close> of a key that is not in the map is
  nil, and reading its field panics: this is the result \<open>None\<close>.
\<close>

fun replaceNewer :: "poolState \<Rightarrow> string \<Rightarrow> connRef \<Rightarrow> string list \<Rightarrow> string list option" where
  "replaceNewer s key conn [] = Some []"
| "replaceNewer s key conn (oldKey # olds) =
     (case connections (pool s) oldKey of
        None \<Rightarrow> None
      | Some oldConn \<Rightarrow>
          if lastUsed (heap s conn) < lastUsed (heap s oldConn) then Some (key # olds)
          else map_option ((#) oldKey) (replaceNewer s key conn olds))"

fun scanOldest ::
  "poolState \<Rightarrow> nat \<Rightarrow> (string \<times> connRef) list \<Rightarrow> string list \<Rightarrow> string list option" where
  "scanOldest s count [] oldest = Some oldest"
| "scanOldest s count ((key, conn) # rest) oldest =
     (if length oldest < count then scanOldest s count rest (oldest @ [key])
      else (case replaceNewer s key conn oldest of
              None \<Rightarrow> None
            | Some oldest' \<Rightarrow> scanOldest s count rest oldest'))"

text \<open>The last loop of \<open>cleanupOldestLocked\<close>, over \<open>oldest\<close>.\<close>

fun evictOldest :: "string list \<Rightarrow> poolState \<Rightarrow> poolState" where
  "evictOldest [] s = s"
| "evictOldest (key # rest) s =
     (let s' =
        (case connections (pool s) key of
           Some conn \<Rightarrow>
             s\<lparr> heap := (heap s)(conn := Close (trySend (heap s conn))),
                pool := (pool s)\<lparr> connections := (connections (pool s))(key := None),
                                  currentSize := currentSize (pool s) - 1 \<rparr> \<rparr>
         | None \<Rightarrow> s)
      in evictOldest rest
           (s'\<lparr> pool := (pool s')\<lparr> creationLock := creationLock (pool s') - {key} \<rparr> \<rparr>))"

definition cleanupOldestLocked :: "nat \<Rightarrow> string list \<Rightarrow> poolState \<Rightarrow> poolState option" where
  "cleanupOldestLocked count order s =
     (if currentSize (pool s) \<le> int count then Some s
      else (case scanOldest s count (rangeMap order (connections (pool s))) [] of
              None \<Rightarrow> None
            | Some oldest \<Rightarrow> Some (evictOldest oldest s)))"

text \<open>
  \<open>Set\<close>. \<open>order\<close> is the order of the \<open>range\<close> in \<open>cleanupOldestLocked\<close>, should it be
  called. \<open>storeConn\<close> is the three statements after the eviction.
\<close>

definition storeConn :: "string \<Rightarrow> connRef \<Rightarrow> time \<Rightarrow> poolState \<Rightarrow> poolState" where
  "storeConn key conn now s =
     s\<lparr> heap := (heap s)(conn := (heap s conn)\<lparr> lastUsed := now \<rparr>),
        pool := (pool s)\<lparr> connections := (connections (pool s))(key \<mapsto> conn),
                          currentSize := currentSize (pool s) + 1 \<rparr> \<rparr>"

definition Set :: "string \<Rightarrow> connRef \<Rightarrow> time \<Rightarrow> string list \<Rightarrow> poolState \<Rightarrow> poolState option" where
  "Set key conn now order s =
     (case (if maxSize (pool s) \<le> currentSize (pool s)
            then cleanupOldestLocked 5 order s else Some s) of
        None \<Rightarrow> None
      | Some s' \<Rightarrow> Some (storeConn key conn now s'))"

section \<open>Properties of the SOCKS5 parser and the DNS cache: definitions\<close>

text \<open>
  Datagrams laid out as the request table says: RSV \<open>00 00\<close>, FRAG \<open>00\<close>, ATYP, the
  address, the port (high byte first), the payload.
\<close>

definition datagramIPv4 ::
  "byte \<Rightarrow> byte \<Rightarrow> byte \<Rightarrow> byte \<Rightarrow> byte \<Rightarrow> byte \<Rightarrow> byte list \<Rightarrow> byte list" where
  "datagramIPv4 a b c d portHi portLo payload =
     [0x00, 0x00, 0x00, 0x01, a, b, c, d, portHi, portLo] @ payload"

definition datagramDomain :: "byte list \<Rightarrow> byte \<Rightarrow> byte \<Rightarrow> byte list \<Rightarrow> byte list" where
  "datagramDomain name portHi portLo payload =
     [0x00, 0x00, 0x00, 0x03, of_nat (length name)] @ name @ [portHi, portLo] @ payload"

definition datagramIPv6 :: "byte list \<Rightarrow> byte \<Rightarrow> byte \<Rightarrow> byte list \<Rightarrow> byte list" where
  "datagramIPv6 addr portHi portLo payload =
     [0x00, 0x00, 0x00, 0x04] @ addr @ [portHi, portLo] @ payload"

text \<open>
  A buffer that holds a complete header: valid RSV, FRAG and ATYP, and the address
  and the port within the buffer.
\<close>

definition completeHeader :: "byte list \<Rightarrow> bool" where
  "completeHeader data =
     (4 \<le> length data \<and> data ! 0 = 0x00 \<and> data ! 1 = 0x00 \<and> data ! 2 = 0x00 \<and>
      (data ! 3 = 0x01 \<and> 10 \<le> length data \<or>
       data ! 3 = 0x03 \<and> 5 \<le> length data \<and> 7 + unat (data ! 4) \<le> length data \<or>
       data ! 3 = 0x04 \<and> 22 \<le> length data))"

definition dottedQuad :: "byte \<Rightarrow> byte \<Rightarrow> byte \<Rightarrow> byte \<Rightarrow> string" where
  "dottedQuad a b c d =
     FormatUint (unat a) @ ''.'' @ FormatUint (unat b) @ ''.'' @
     FormatUint (unat c) @ ''.'' @ FormatUint (unat d)"

definition portNumber :: "byte \<Rightarrow> byte \<Rightarrow> nat" where
  "portNumber portHi portLo = 256 * unat portHi + unat portLo"

text \<open>An entry is fresh when \<open>now - inserted_at < ttl\<close>.\<close>

definition freshEntry :: "DNSCache \<Rightarrow> string \<Rightarrow> time \<Rightarrow> bool" where
  "freshEntry d host now =
     (case cache d host of
        None \<Rightarrow> False
      | Some entry \<Rightarrow> now - timestamp entry < ttl d)"

text \<open>The first IPv4 result if any, else the first result overall.\<close>

definition selectIP :: "IP list \<Rightarrow> IP" where
  "selectIP ips =
     (case filter (\<lambda>c. To4 c \<noteq> None) ips of
        [] \<Rightarrow> hd ips
      | v4 # _ \<Rightarrow> v4)"

definition isError :: "error + 'a \<Rightarrow> bool" where
  "isError r = (case r of Inl _ \<Rightarrow> True | Inr _ \<Rightarrow> False)"

definition lookupFails :: "error + IP list \<Rightarrow> bool" where
  "lookupFails lookup = (case lookup of Inl _ \<Rightarrow> True | Inr ips \<Rightarrow> ips = [])"

text \<open>A \<open>Duration\<close> above the least one: the time to live of a cache.\<close>

definition validTTL :: "int \<Rightarrow> bool" where
  "validTTL t = (minDuration < t \<and> t \<le> maxDuration)"

definition cacheExample :: DNSCache where
  "cacheExample =
     \<lparr> cache = [''example.org'' \<mapsto> \<lparr> ip = [93, 184, 216, 34], timestamp = 1000000000 \<rparr>],
       ttl = 5000000000 \<rparr>"

definition lookupExample :: "error + IP list" where
  "lookupExample = Inr [replicate 15 0 @ [1], [10, 0, 0, 1], [10, 0, 0, 2]]"

section \<open>Properties of the connection pool: definitions\<close>

text \<open>
  A sequence of operations on the pool; each carries what its surroundings supply (the
  clock, the order of the \<open>range\<close>). \<open>None\<close> is a panic.
\<close>

datatype poolOp =
  OpGet string time
| OpSet string connRef time "string list"
| OpDelete string
| OpCleanup int time "string list"

fun applyOp :: "poolOp \<Rightarrow> poolState \<Rightarrow> poolState option" where
  "applyOp (OpGet key now) s = Some (snd (Get key now s))"
| "applyOp (OpSet key conn now order) s = Set key conn now order s"
| "applyOp (OpDelete key) s = Some (Delete key s)"
| "applyOp (OpCleanup maxAge now order) s = Some (Cleanup maxAge now order s)"

fun runOps :: "poolOp list \<Rightarrow> poolState \<Rightarrow> poolState option" where
  "runOps [] s = Some s"
| "runOps (op # ops) s =
     (case applyOp op s of
        None \<Rightarrow> None
      | Some s' \<Rightarrow> runOps ops s')"

text \<open>The invariant of the spec: \<open>current_size\<close> equals the number of keys of the map.\<close>

definition sizeMatches :: "poolState \<Rightarrow> bool" where
  "sizeMatches s =
     (finite (dom (connections (pool s))) \<and>
      currentSize (pool s) = int (card (dom (connections (pool s)))))"

definition freshState :: poolState where
  "freshState =
     \<lparr> pool = NewUDPConnectionPool 1000 1420,
       heap = (\<lambda>r. \<lparr> lastUsed = 0, readerDone = 0, connClosed = False \<rparr>) \<rparr>"

text \<open>The time of last use of the connection under a key.\<close>

definition keyLastUsed :: "poolState \<Rightarrow> string \<Rightarrow> time" where
  "keyLastUsed s key =
     (case connections (pool s) key of
        None \<Rightarrow> 0
      | Some conn \<Rightarrow> lastUsed (heap s conn))"

text \<open>
  The buffer after a new entry, last used at \<open>t\<close>, has met a full buffer: the first
  candidate used strictly later than \<open>t\<close> is replaced by the new key, and without
  such a candidate the buffer stays as it is.
\<close>

definition replaceFirstLater :: "poolState \<Rightarrow> time \<Rightarrow> string \<Rightarrow> string list \<Rightarrow> string list" where
  "replaceFirstLater s t key oldest =
     (case dropWhile (\<lambda>k. \<not> t < keyLastUsed s k) oldest of
        [] \<Rightarrow> oldest
      | _ # rest \<Rightarrow> takeWhile (\<lambda>k. \<not> t < keyLastUsed s k) oldest @ key # rest)"




text \<open>Every \<open>Set\<close> of the sequence is for a key that the map does not hold at that time.\<close>

fun setsAbsentKeys :: "poolOp list \<Rightarrow> poolState \<Rightarrow> bool" where
  "setsAbsentKeys [] s = True"
| "setsAbsentKeys (op # ops) s =
     ((case op of
         OpSet key conn now order \<Rightarrow> key \<notin> dom (connections (pool s))
       | _ \<Rightarrow> True) \<and>
      (case applyOp op s of
         None \<Rightarrow> True
       | Some s' \<Rightarrow> setsAbsentKeys ops s'))"

section \<open>Properties of ValidateASecConfig\<close>

subsection \<open>The loops, in closed form\<close>

lemma packetSizeInner_eq:
  "packetSizeInner c p rest =
     (if size_p p \<in> size_p ` set (filter isSet rest) then Some (packetSizeError c) else None)"
  by (induction rest) (auto simp: packetSizeError_def)

lemma packetSizeOuter_eq:
  "packetSizeOuter c ps =
     (if distinct (map size_p (filter isSet ps)) then None else Some (packetSizeError c))"
  by (induction ps) (auto simp: packetSizeInner_eq)

lemma packetSizeOuter_collision:
  "packetSizeOuter c (packetSizes c) =
     (if packetSizeCollision c then Some (packetSizeError c) else None)"
  by (simp add: packetSizeOuter_eq packetSizeCollision_def)

lemma checkIntervalBounds_eq:
  "checkIntervalBounds ivs = (if list_all boundsOrdered ivs then None else Some errHeaderRange)"
  by (induction ivs) (auto simp: boundsOrdered_def)

lemma overlapsLater_eq:
  "overlapsLater left rest \<longleftrightarrow> (\<exists>right \<in> set rest. overlapsInclusive left right)"
  by (induction rest) (auto simp: overlapsInclusive_def)

lemma overlapsInclusive_commute: "overlapsInclusive a b = overlapsInclusive b a"
  by (auto simp: overlapsInclusive_def)

lemma someTwoOverlap_Cons:
  "someTwoOverlap (x # xs) \<longleftrightarrow> (\<exists>y \<in> set xs. overlapsInclusive x y) \<or> someTwoOverlap xs"
proof
  assume "someTwoOverlap (x # xs)"
  then obtain i j where ij: "i < Suc (length xs)" "j < Suc (length xs)" "i \<noteq> j"
    "overlapsInclusive ((x # xs) ! i) ((x # xs) ! j)"
    by (auto simp: someTwoOverlap_def)
  show "(\<exists>y \<in> set xs. overlapsInclusive x y) \<or> someTwoOverlap xs"
  proof (cases i)
    case 0
    with ij obtain j' where "j = Suc j'" "j' < length xs" by (cases j) auto
    with 0 ij show ?thesis by auto
  next
    case (Suc i')
    show ?thesis
    proof (cases j)
      case 0
      with Suc ij have "overlapsInclusive x (xs ! i')" "i' < length xs"
        by (auto simp: overlapsInclusive_commute)
      then show ?thesis by auto
    next
      case (Suc j')
      with \<open>i = Suc i'\<close> ij have "i' < length xs" "j' < length xs" "i' \<noteq> j'"
        "overlapsInclusive (xs ! i') (xs ! j')" by auto
      then show ?thesis unfolding someTwoOverlap_def by force
    qed
  qed
next
  assume "(\<exists>y \<in> set xs. overlapsInclusive x y) \<or> someTwoOverlap xs"
  then show "someTwoOverlap (x # xs)"
  proof
    assume "\<exists>y \<in> set xs. overlapsInclusive x y"
    then obtain j where "j < length xs" "overlapsInclusive x (xs ! j)"
      by (auto simp: in_set_conv_nth)
    then have "0 < Suc (length xs)" "Suc j < Suc (length xs)" "0 \<noteq> Suc j"
      "overlapsInclusive ((x # xs) ! 0) ((x # xs) ! Suc j)" by auto
    then show ?thesis unfolding someTwoOverlap_def
      by (metis atLeastLessThan_iff length_Cons zero_le)
  next
    assume "someTwoOverlap xs"
    then obtain i j where "i < length xs" "j < length xs" "i \<noteq> j"
      "overlapsInclusive (xs ! i) (xs ! j)"
      by (auto simp: someTwoOverlap_def)
    then have "Suc i < Suc (length xs)" "Suc j < Suc (length xs)" "Suc i \<noteq> Suc j"
      "overlapsInclusive ((x # xs) ! Suc i) ((x # xs) ! Suc j)" by auto
    then show ?thesis unfolding someTwoOverlap_def
      by (metis atLeastLessThan_iff length_Cons zero_le)
  qed
qed

lemma hasOverlappingHeaderIntervals_eq:
  "hasOverlappingHeaderIntervals ivs \<longleftrightarrow> someTwoOverlap ivs"
proof (induction ivs)
  case Nil
  show ?case by (simp add: someTwoOverlap_def)
next
  case (Cons x xs)
  then show ?case by (simp add: overlapsLater_eq someTwoOverlap_Cons)
qed

lemma validateHeaders_eq:
  "validateHeaders c =
     (if \<not> list_all boundsOrdered (collectEffectiveHeaderIntervals (Some c))
      then Some errHeaderRange
      else if someTwoOverlap (collectEffectiveHeaderIntervals (Some c))
      then Some errHeaderUnique else None)"
  by (simp add: validateHeaders_def checkIntervalBounds_eq hasOverlappingHeaderIntervals_eq)

lemma ValidateASecConfig_eq:
  "ValidateASecConfig (Some c) =
     (case validateJunk c of
        Some e \<Rightarrow> Some e
      | None \<Rightarrow> if packetSizeCollision c then Some (packetSizeError c) else validateHeaders c)"
  by (simp add: ValidateASecConfig_def packetSizeOuter_collision split: option.splits)

lemma validateJunk_cases:
  "validateJunk c = None \<or> validateJunk c = Some errJc \<or>
   validateJunk c = Some errJminJmax \<or> validateJunk c = Some errJmax"
  by (simp add: validateJunk_def)

lemma error_texts_distinct:
  "distinct [errJc, errJminJmax, errJmax, errPacketSizeLong, errPacketSizeShort,
             errHeaderRange, errHeaderUnique]"
  by (simp add: errJc_def errJminJmax_def errJmax_def errPacketSizeLong_def
      errPacketSizeShort_def errHeaderRange_def errHeaderUnique_def)

subsection \<open>Packet sizes as integers\<close>

lemma sint_offset:
  fixes s k :: go_int
  assumes "junkSizeInRange s" and "0 \<le> sint k" and "sint k \<le> 148"
  shows "sint (k + s) = sint k + sint s"
proof -
  from assms(1) have b: "0 \<le> sint s" "sint s \<le> 1280"
    by (simp_all add: junkSizeInRange_def word_sle_eq)
  have "sint (k + s) = signed_take_bit 63 (sint k + sint s)"
    by (simp add: sint_word_ariths)
  moreover have "signed_take_bit 63 (sint k + sint s) = sint k + sint s"
    using b assms(2,3) by (intro signed_take_bit_int_eq_self) simp_all
  ultimately show ?thesis by simp
qed

lemma sizes_as_ints:
  assumes "setSizesInRange c"
  shows "map sint (map size_p (filter isSet (packetSizes c))) = setPacketSums c"
  using assms
  by (simp add: setSizesInRange_def packetSizes_def setPacketSums_def messageInitiationSize_def
      messageResponseSize_def messageCookieReplySize_def messageTransportSize_def sint_offset
      split: if_splits)

lemma distinct_map_sint: "distinct (map sint (ws :: go_int list)) = distinct ws"
  by (simp add: distinct_map inj_on_def signed_word_eqI)

lemma collision_as_ints:
  assumes "setSizesInRange c"
  shows "packetSizeCollision c \<longleftrightarrow> \<not> distinct (setPacketSums c)"
  unfolding packetSizeCollision_def
  using sizes_as_ints [OF assms] distinct_map_sint [of "map size_p (filter isSet (packetSizes c))"]
  by simp

lemma validateHeaders_defaults:
  assumes "\<not> hasInitPacketMagicHeader c" "\<not> hasResponsePacketMagicHeader c"
    "\<not> hasUnderloadPacketMagicHeader c" "\<not> hasTransportPacketMagicHeader c"
  shows "validateHeaders c = None"
  using assms
  by (simp add: validateHeaders_def collectEffectiveHeaderIntervals_def
      defaultInitPacketMagicHeader_def defaultResponsePacketMagicHeader_def
      defaultUnderloadPacketMagicHeader_def defaultTransportPacketMagicHeader_def
      word_le_nat_alt word_less_nat_alt)

subsection \<open>The packet-size equation\<close>

text \<open>
  Claim C1. For a configuration in which only fields among S1, S2, S3, S4 are set, each
  set one within \<open>[0, 1280]\<close>, \<open>ValidateASecConfig\<close> returns no error if and only if the
  sums \<open>148 + S1\<close>, \<open>92 + S2\<close>, \<open>64 + S3\<close>, \<open>32 + S4\<close> of the fields that are set are
  pairwise distinct.
\<close>

theorem packet_size_equation:
  assumes "onlyPacketSizesSet c" and "setSizesInRange c"
  shows "ValidateASecConfig (Some c) = None \<longleftrightarrow> distinct (setPacketSums c)"
proof -
  have j: "validateJunk c = None"
    using assms(1) by (simp add: validateJunk_def onlyPacketSizesSet_def)
  have h: "validateHeaders c = None"
    using assms(1) by (intro validateHeaders_defaults) (simp_all add: onlyPacketSizesSet_def)
  show ?thesis
    using j h collision_as_ints [OF assms(2)]
    by (simp add: ValidateASecConfig_eq)
qed

theorem packet_size_equation_witness:
  "onlyPacketSizesSet configS1S2 \<and> setSizesInRange configS1S2 \<and>
   ValidateASecConfig (Some configS1S2) = None \<and>
   onlyPacketSizesSet configS1S3Collide \<and> setSizesInRange configS1S3Collide \<and>
   ValidateASecConfig (Some configS1S3Collide) \<noteq> None"
proof -
  have a: "onlyPacketSizesSet configS1S2" "setSizesInRange configS1S2"
    by (simp_all add: onlyPacketSizesSet_def setSizesInRange_def junkSizeInRange_def
        configS1S2_def zeroASecConfig_def word_sle_eq)
  have b: "onlyPacketSizesSet configS1S3Collide" "setSizesInRange configS1S3Collide"
    by (simp_all add: onlyPacketSizesSet_def setSizesInRange_def junkSizeInRange_def
        configS1S3Collide_def zeroASecConfig_def word_sle_eq)
  have "distinct (setPacketSums configS1S2)"
    by (simp add: setPacketSums_def configS1S2_def zeroASecConfig_def)
  moreover have "\<not> distinct (setPacketSums configS1S3Collide)"
    by (simp add: setPacketSums_def configS1S3Collide_def zeroASecConfig_def)
  ultimately show ?thesis
    using a b packet_size_equation [OF a] packet_size_equation [OF b] by simp
qed

subsection \<open>The text of the packet-size error\<close>

text \<open>
  Claim C3. \<open>ValidateASecConfig\<close> reaches the packet-size check when the three junk
  checks pass, and detects a collision when two set sizes are equal. It then returns
  the long text if S3 or S4 is set and the short text otherwise, whichever pair
  collided; and it returns either text in no other case. The two texts differ.
\<close>

theorem packet_size_error_text:
  "(ValidateASecConfig (Some c) = Some errPacketSizeLong \<longleftrightarrow>
      validateJunk c = None \<and> packetSizeCollision c \<and>
      (hasCookieReplyPacketJunkSize c \<or> hasTransportPacketJunkSize c)) \<and>
   (ValidateASecConfig (Some c) = Some errPacketSizeShort \<longleftrightarrow>
      validateJunk c = None \<and> packetSizeCollision c \<and>
      \<not> (hasCookieReplyPacketJunkSize c \<or> hasTransportPacketJunkSize c)) \<and>
   errPacketSizeLong \<noteq> errPacketSizeShort"
proof -
  have d: "errPacketSizeLong \<noteq> errPacketSizeShort"
    "errJc \<noteq> errPacketSizeLong" "errJminJmax \<noteq> errPacketSizeLong" "errJmax \<noteq> errPacketSizeLong"
    "errJc \<noteq> errPacketSizeShort" "errJminJmax \<noteq> errPacketSizeShort" "errJmax \<noteq> errPacketSizeShort"
    "errHeaderRange \<noteq> errPacketSizeLong" "errHeaderUnique \<noteq> errPacketSizeLong"
    "errHeaderRange \<noteq> errPacketSizeShort" "errHeaderUnique \<noteq> errPacketSizeShort"
    using error_texts_distinct by auto
  show ?thesis
    using validateJunk_cases [of c] d
    by (auto simp: ValidateASecConfig_eq validateHeaders_eq packetSizeError_def
        split: if_splits)
qed

theorem packet_size_error_text_witness:
  "ValidateASecConfig (Some configS1S3Collide) = Some errPacketSizeLong \<and>
   ValidateASecConfig (Some configS1S2Collide) = Some errPacketSizeShort"
proof -
  have "validateJunk configS1S3Collide = None" "packetSizeCollision configS1S3Collide"
    "hasCookieReplyPacketJunkSize configS1S3Collide"
    by (simp_all add: validateJunk_def packetSizeCollision_def packetSizes_def
        configS1S3Collide_def zeroASecConfig_def messageInitiationSize_def
        messageCookieReplySize_def)
  moreover have "validateJunk configS1S2Collide = None" "packetSizeCollision configS1S2Collide"
    "\<not> (hasCookieReplyPacketJunkSize configS1S2Collide \<or>
        hasTransportPacketJunkSize configS1S2Collide)"
    by (simp_all add: validateJunk_def packetSizeCollision_def packetSizes_def
        configS1S2Collide_def zeroASecConfig_def messageInitiationSize_def
        messageResponseSize_def)
  ultimately show ?thesis
    using packet_size_error_text [of configS1S3Collide]
      packet_size_error_text [of configS1S2Collide]
    by simp
qed

subsection \<open>Overlapping header intervals\<close>

text \<open>
  The list \<open>collectEffectiveHeaderIntervals\<close> builds holds, bound for bound, the four
  effective intervals: the user's H1 to H4 where set, the defaults 1, 2, 3, 4 elsewhere.
\<close>

lemma intervals_of_collected:
  "map intervalOf (collectEffectiveHeaderIntervals (Some c)) = effectiveIntervals c"
  by (simp add: collectEffectiveHeaderIntervals_def effectiveIntervals_def
      effectiveInterval_def intervalOf_def defaultInitPacketMagicHeader_def
      defaultResponsePacketMagicHeader_def defaultUnderloadPacketMagicHeader_def
      defaultTransportPacketMagicHeader_def)

lemma overlapsInclusive_intervalOf:
  "overlapsInclusive a b = intervalsOverlap (intervalOf a) (intervalOf b)"
  by (simp add: overlapsInclusive_def intervalsOverlap_def intervalOf_def word_le_nat_alt)

lemma someTwoOverlap_intervalOf:
  "someTwoOverlap ivs = someTwoIntervalsOverlap (map intervalOf ivs)"
  by (simp add: someTwoOverlap_def someTwoIntervalsOverlap_def overlapsInclusive_intervalOf)

lemma boundsOrdered_intervalOf:
  "list_all boundsOrdered ivs = list_all intervalOrdered (map intervalOf ivs)"
  by (induction ivs)
    (simp_all add: boundsOrdered_def intervalOrdered_def intervalOf_def word_le_nat_alt)

lemma intervalsOverlap_commute: "intervalsOverlap p q = intervalsOverlap q p"
  by (auto simp: intervalsOverlap_def)

text \<open>
  The loop of \<open>hasOverlappingHeaderIntervals\<close> compares every interval with the later
  ones only; its verdict is the same on the list in the opposite order.
\<close>

lemma hasOverlapping_append:
  "hasOverlappingHeaderIntervals (xs @ ys) \<longleftrightarrow>
     hasOverlappingHeaderIntervals xs \<or> hasOverlappingHeaderIntervals ys \<or>
     (\<exists>x \<in> set xs. \<exists>y \<in> set ys. overlapsInclusive x y)"
  by (induction xs) (auto simp: overlapsLater_eq)

lemma hasOverlapping_rev:
  "hasOverlappingHeaderIntervals (rev ivs) = hasOverlappingHeaderIntervals ivs"
proof (induction ivs)
  case Nil
  show ?case by simp
next
  case (Cons x xs)
  have "(\<exists>y \<in> set xs. overlapsInclusive y x) = (\<exists>y \<in> set xs. overlapsInclusive x y)"
    using overlapsInclusive_commute by blast
  with Cons show ?case
    by (auto simp: hasOverlapping_append overlapsLater_eq)
qed

lemma unique_verdict:
  "ValidateASecConfig (Some c) = Some errHeaderUnique \<longleftrightarrow>
     validateJunk c = None \<and> \<not> packetSizeCollision c \<and>
     list_all intervalOrdered (effectiveIntervals c) \<and>
     someTwoIntervalsOverlap (effectiveIntervals c)"
proof -
  have d: "errJc \<noteq> errHeaderUnique" "errJminJmax \<noteq> errHeaderUnique"
    "errJmax \<noteq> errHeaderUnique" "errPacketSizeLong \<noteq> errHeaderUnique"
    "errPacketSizeShort \<noteq> errHeaderUnique" "errHeaderRange \<noteq> errHeaderUnique"
    using error_texts_distinct by auto
  have "ValidateASecConfig (Some c) = Some errHeaderUnique \<longleftrightarrow>
      validateJunk c = None \<and> \<not> packetSizeCollision c \<and>
      list_all boundsOrdered (collectEffectiveHeaderIntervals (Some c)) \<and>
      someTwoOverlap (collectEffectiveHeaderIntervals (Some c))"
    using validateJunk_cases [of c] d
    by (auto simp: ValidateASecConfig_eq validateHeaders_eq packetSizeError_def
        split: if_splits)
  then show ?thesis
    by (simp add: boundsOrdered_intervalOf someTwoOverlap_intervalOf intervals_of_collected)
qed

lemma overlap_at:
  assumes "i < length ivs" "j < length ivs" "i \<noteq> j" "intervalsOverlap (ivs ! i) (ivs ! j)"
  shows "someTwoIntervalsOverlap ivs"
  using assms unfolding someTwoIntervalsOverlap_def by force

lemma junk_unset:
  assumes "\<not> hasJunkPacketCount c" "\<not> hasJunkPacketMaxSize c"
  shows "validateJunk c = None"
  using assms by (simp add: validateJunk_def)

lemma sizes_unset:
  assumes "\<not> hasInitPacketJunkSize c" "\<not> hasResponsePacketJunkSize c"
    "\<not> hasCookieReplyPacketJunkSize c" "\<not> hasTransportPacketJunkSize c"
  shows "\<not> packetSizeCollision c"
  using assms by (simp add: packetSizeCollision_def packetSizes_def)

text \<open>
  Claim C2, as stated, asks that the error "values of the H1-H4 fields must be unique"
  is returned whenever two effective intervals overlap. A configuration with
  \<open>Jc = 200\<close> and \<open>H1 = 2\<close> has the effective intervals \<open>[2, 2]\<close>, \<open>[2, 2]\<close>, \<open>[3, 3]\<close>,
  \<open>[4, 4]\<close>, of which the first two overlap (H1 and the default of H2), and is rejected
  by the check of Jc, which comes first.
\<close>

theorem header_overlap_counterexample:
  "effectiveIntervals configJc200H1is2 = [(2, 2), (2, 2), (3, 3), (4, 4)] \<and>
   someTwoIntervalsOverlap (effectiveIntervals configJc200H1is2) \<and>
   someTwoOverlap (collectEffectiveHeaderIntervals (Some configJc200H1is2)) \<and>
   ValidateASecConfig (Some configJc200H1is2) = Some errJc \<and>
   errJc \<noteq> errHeaderUnique"
proof -
  have e: "effectiveIntervals configJc200H1is2 = [(2, 2), (2, 2), (3, 3), (4, 4)]"
    by (simp add: effectiveIntervals_def effectiveInterval_def configJc200H1is2_def
        configH1is2_def zeroASecConfig_def)
  have o: "someTwoIntervalsOverlap (effectiveIntervals configJc200H1is2)"
    unfolding e by (rule overlap_at [of 0 _ 1]) (simp_all add: intervalsOverlap_def)
  have "hasOverlappingHeaderIntervals (collectEffectiveHeaderIntervals (Some configJc200H1is2))"
    by (simp add: collectEffectiveHeaderIntervals_def configJc200H1is2_def configH1is2_def
        zeroASecConfig_def defaultResponsePacketMagicHeader_def
        defaultUnderloadPacketMagicHeader_def defaultTransportPacketMagicHeader_def)
  moreover have "validateJunk configJc200H1is2 = Some errJc"
    by (simp add: validateJunk_def configJc200H1is2_def configH1is2_def zeroASecConfig_def
        word_sless_alt)
  moreover have "errJc \<noteq> errHeaderUnique"
    using error_texts_distinct by auto
  ultimately show ?thesis
    using e o by (simp add: hasOverlappingHeaderIntervals_eq ValidateASecConfig_eq)
qed

text \<open>
  Claim C2, amended. The list \<open>collectEffectiveHeaderIntervals\<close> builds holds the four
  effective intervals: for each of H1 to H4 the interval the user supplied if the
  field is set, else the scalar default 1, 2, 3, 4. \<open>ValidateASecConfig\<close> returns the
  error "values of the H1-H4 fields must be unique" if and only if the earlier checks
  pass (the junk checks, no packet-size collision, every effective interval with its
  bounds in order) and some two effective intervals overlap inclusively. The verdict
  of \<open>hasOverlappingHeaderIntervals\<close> does not depend on the order of the intervals, for
  a pair and for a whole list, and the overlap of two intervals is symmetric. A
  configuration with only \<open>H1 = 2\<close> set has the effective intervals \<open>[2, 2]\<close>, \<open>[2, 2]\<close>,
  \<open>[3, 3]\<close>, \<open>[4, 4]\<close> and is rejected with this error, because of the default \<open>H2 = 2\<close>.
\<close>

theorem header_overlap_verdict:
  "map intervalOf (collectEffectiveHeaderIntervals (Some c)) = effectiveIntervals c \<and>
   (ValidateASecConfig (Some c) = Some errHeaderUnique \<longleftrightarrow>
      validateJunk c = None \<and> \<not> packetSizeCollision c \<and>
      list_all intervalOrdered (effectiveIntervals c) \<and>
      someTwoIntervalsOverlap (effectiveIntervals c)) \<and>
   hasOverlappingHeaderIntervals [a, b] = hasOverlappingHeaderIntervals [b, a] \<and>
   hasOverlappingHeaderIntervals (rev ivs) = hasOverlappingHeaderIntervals ivs \<and>
   intervalsOverlap p q = intervalsOverlap q p \<and>
   effectiveIntervals configH1is2 = [(2, 2), (2, 2), (3, 3), (4, 4)] \<and>
   ValidateASecConfig (Some configH1is2) = Some errHeaderUnique"
proof -
  have e: "effectiveIntervals configH1is2 = [(2, 2), (2, 2), (3, 3), (4, 4)]"
    by (simp add: effectiveIntervals_def effectiveInterval_def configH1is2_def
        zeroASecConfig_def)
  have j: "validateJunk configH1is2 = None"
    by (rule junk_unset) (simp_all add: configH1is2_def zeroASecConfig_def)
  have s: "\<not> packetSizeCollision configH1is2"
    by (rule sizes_unset) (simp_all add: configH1is2_def zeroASecConfig_def)
  have b: "list_all intervalOrdered (effectiveIntervals configH1is2)"
    unfolding e by (simp add: intervalOrdered_def)
  have o: "someTwoIntervalsOverlap (effectiveIntervals configH1is2)"
    unfolding e by (rule overlap_at [of 0 _ 1]) (simp_all add: intervalsOverlap_def)
  have v: "ValidateASecConfig (Some configH1is2) = Some errHeaderUnique"
    using unique_verdict [of configH1is2] j s b o by simp
  have r: "hasOverlappingHeaderIntervals [a, b] = hasOverlappingHeaderIntervals [b, a]"
    using hasOverlapping_rev [of "[a, b]"] by simp
  show ?thesis
    using intervals_of_collected [of c] unique_verdict [of c] r hasOverlapping_rev [of ivs]
      intervalsOverlap_commute [of p q] e v
    by simp
qed

text \<open>
  Instances: two overlapping ranges for H1 and H2; only \<open>H3 = 2\<close>, which meets the
  default of H2; only \<open>H4 = 3-9\<close>, which meets the default of H3; and four intervals
  apart from each other, which are accepted.
\<close>

theorem header_overlap_verdict_witness:
  "effectiveIntervals configRanges = [(100, 200), (200, 300), (3, 3), (4, 4)] \<and>
   ValidateASecConfig (Some configRanges) = Some errHeaderUnique \<and>
   effectiveIntervals configH3is2 = [(1, 1), (2, 2), (2, 2), (4, 4)] \<and>
   ValidateASecConfig (Some configH3is2) = Some errHeaderUnique \<and>
   effectiveIntervals configH4from3to9 = [(1, 1), (2, 2), (3, 3), (3, 9)] \<and>
   ValidateASecConfig (Some configH4from3to9) = Some errHeaderUnique \<and>
   effectiveIntervals configHeadersApart = [(10, 10), (20, 30), (40, 40), (50, 60)] \<and>
   \<not> someTwoIntervalsOverlap (effectiveIntervals configHeadersApart) \<and>
   ValidateASecConfig (Some configHeadersApart) \<noteq> Some errHeaderUnique"
proof -
  have e1: "effectiveIntervals configRanges = [(100, 200), (200, 300), (3, 3), (4, 4)]"
    by (simp add: effectiveIntervals_def effectiveInterval_def configRanges_def
        zeroASecConfig_def)
  have j1: "validateJunk configRanges = None"
    by (rule junk_unset) (simp_all add: configRanges_def zeroASecConfig_def)
  have s1: "\<not> packetSizeCollision configRanges"
    by (rule sizes_unset) (simp_all add: configRanges_def zeroASecConfig_def)
  have b1: "list_all intervalOrdered (effectiveIntervals configRanges)"
    unfolding e1 by (simp add: intervalOrdered_def)
  have o1: "someTwoIntervalsOverlap (effectiveIntervals configRanges)"
    unfolding e1 by (rule overlap_at [of 0 _ 1]) (simp_all add: intervalsOverlap_def)
  have e2: "effectiveIntervals configH3is2 = [(1, 1), (2, 2), (2, 2), (4, 4)]"
    by (simp add: effectiveIntervals_def effectiveInterval_def configH3is2_def
        zeroASecConfig_def)
  have j2: "validateJunk configH3is2 = None"
    by (rule junk_unset) (simp_all add: configH3is2_def zeroASecConfig_def)
  have s2: "\<not> packetSizeCollision configH3is2"
    by (rule sizes_unset) (simp_all add: configH3is2_def zeroASecConfig_def)
  have b2: "list_all intervalOrdered (effectiveIntervals configH3is2)"
    unfolding e2 by (simp add: intervalOrdered_def)
  have o2: "someTwoIntervalsOverlap (effectiveIntervals configH3is2)"
    unfolding e2 by (rule overlap_at [of 1 _ 2]) (simp_all add: intervalsOverlap_def)
  have e3: "effectiveIntervals configH4from3to9 = [(1, 1), (2, 2), (3, 3), (3, 9)]"
    by (simp add: effectiveIntervals_def effectiveInterval_def configH4from3to9_def
        zeroASecConfig_def)
  have j3: "validateJunk configH4from3to9 = None"
    by (rule junk_unset) (simp_all add: configH4from3to9_def zeroASecConfig_def)
  have s3: "\<not> packetSizeCollision configH4from3to9"
    by (rule sizes_unset) (simp_all add: configH4from3to9_def zeroASecConfig_def)
  have b3: "list_all intervalOrdered (effectiveIntervals configH4from3to9)"
    unfolding e3 by (simp add: intervalOrdered_def)
  have o3: "someTwoIntervalsOverlap (effectiveIntervals configH4from3to9)"
    unfolding e3 by (rule overlap_at [of 2 _ 3]) (simp_all add: intervalsOverlap_def)
  have e4: "effectiveIntervals configHeadersApart = [(10, 10), (20, 30), (40, 40), (50, 60)]"
    by (simp add: effectiveIntervals_def effectiveInterval_def configHeadersApart_def
        zeroASecConfig_def)
  have o4: "\<not> someTwoIntervalsOverlap (effectiveIntervals configHeadersApart)"
    unfolding e4 by code_simp
  show ?thesis
    using header_overlap_verdict [of configRanges] header_overlap_verdict [of configH3is2]
      header_overlap_verdict [of configH4from3to9] header_overlap_verdict [of configHeadersApart]
      e1 j1 s1 b1 o1 e2 j2 s2 b2 o2 e3 j3 s3 b3 o3 e4 o4
    by simp
qed

section \<open>Properties of the header literals\<close>

subsection \<open>Decimal numerals\<close>

lemma digit_char_of:
  assumes "d < 10"
  shows "isDecimalDigit (char_of (of_char (CHR ''0'') + d :: nat))"
    and "(of_char (char_of (of_char (CHR ''0'') + d :: nat)) :: nat) = 48 + d"
  using assms by (simp_all add: isDecimalDigit_def)

lemma FormatUint_digits: "\<forall>c \<in> set (FormatUint n). isDecimalDigit c"
proof (induction n rule: FormatUint.induct)
  case (1 n)
  show ?case
  proof (cases "n < 10")
    case True
    then show ?thesis
      using digit_char_of(1) [of n] by (subst FormatUint.simps) simp
  next
    case False
    have "n mod 10 < 10" by simp
    then have "isDecimalDigit (char_of (of_char (CHR ''0'') + n mod 10 :: nat))"
      by (rule digit_char_of(1))
    with False 1 show ?thesis
      by (subst FormatUint.simps) simp
  qed
qed

lemma FormatUint_nonempty: "FormatUint n \<noteq> []"
  by (subst FormatUint.simps) simp

lemma parseUintLoop_snoc:
  "parseUintLoop maxVal a (xs @ [c]) =
     (case parseUintLoop maxVal a xs of
        Inl e \<Rightarrow> Inl e
      | Inr m \<Rightarrow> parseUintLoop maxVal m [c])"
  by (induction xs arbitrary: a) (simp_all add: Let_def)

lemma parseUintLoop_digit:
  assumes "d < 10" and "m * 10 + d \<le> maxVal" and "maxVal < 2 ^ 64"
  shows "parseUintLoop maxVal m [char_of (of_char (CHR ''0'') + d :: nat)] = Inr (m * 10 + d)"
proof -
  have "m * 10 < 2 ^ 64" using assms by simp
  then have "m < cutoff10" by (simp add: cutoff10_def)
  then show ?thesis
    using assms digit_char_of(2) [OF assms(1)] by (simp add: Let_def)
qed

lemma parseUintLoop_FormatUint:
  assumes "n \<le> maxVal" and "maxVal < 2 ^ 64"
  shows "parseUintLoop maxVal 0 (FormatUint n) = Inr n"
  using assms
proof (induction n rule: FormatUint.induct)
  case (1 n)
  show ?case
  proof (cases "n < 10")
    case True
    then show ?thesis
      using parseUintLoop_digit [of n 0 maxVal] 1(2,3)
      by (subst FormatUint.simps) simp
  next
    case False
    have "n div 10 \<le> maxVal" using 1(2) by simp
    with False 1 have ih: "parseUintLoop maxVal 0 (FormatUint (n div 10)) = Inr (n div 10)"
      by simp
    have "parseUintLoop maxVal (n div 10) [char_of (of_char (CHR ''0'') + n mod 10 :: nat)] =
        Inr (n div 10 * 10 + n mod 10)"
      using 1(2,3) by (intro parseUintLoop_digit) simp_all
    with ih False show ?thesis
      by (subst FormatUint.simps) (simp add: parseUintLoop_snoc)
  qed
qed

lemma ParseUint_FormatUint:
  assumes "n < 2 ^ 32"
  shows "ParseUint (FormatUint n) 32 = Inr n"
proof -
  have "parseUintLoop (2 ^ 32 - 1) 0 (FormatUint n) = Inr n"
    using assms by (intro parseUintLoop_FormatUint) simp_all
  then show ?thesis by (simp add: ParseUint_def FormatUint_nonempty)
qed

subsection \<open>Trimming and splitting a literal\<close>

lemma whiteSpaceEncodings_explicit:
  "whiteSpaceEncodings =
     [[CHR 0x09], [CHR 0x0A], [CHR 0x0B], [CHR 0x0C], [CHR 0x0D], [CHR 0x20],
      [CHR 0xC2, CHR 0x85], [CHR 0xC2, CHR 0xA0], [CHR 0xE1, CHR 0x9A, CHR 0x80],
      [CHR 0xE2, CHR 0x80, CHR 0x80], [CHR 0xE2, CHR 0x80, CHR 0x81],
      [CHR 0xE2, CHR 0x80, CHR 0x82], [CHR 0xE2, CHR 0x80, CHR 0x83],
      [CHR 0xE2, CHR 0x80, CHR 0x84], [CHR 0xE2, CHR 0x80, CHR 0x85],
      [CHR 0xE2, CHR 0x80, CHR 0x86], [CHR 0xE2, CHR 0x80, CHR 0x87],
      [CHR 0xE2, CHR 0x80, CHR 0x88], [CHR 0xE2, CHR 0x80, CHR 0x89],
      [CHR 0xE2, CHR 0x80, CHR 0x8A], [CHR 0xE2, CHR 0x80, CHR 0xA8],
      [CHR 0xE2, CHR 0x80, CHR 0xA9], [CHR 0xE2, CHR 0x80, CHR 0xAF],
      [CHR 0xE2, CHR 0x81, CHR 0x9F], [CHR 0xE3, CHR 0x80, CHR 0x80]]"
  by code_simp

lemma digit_not_in_encodings:
  assumes "isDecimalDigit c"
  shows "\<forall>w \<in> set whiteSpaceEncodings. w \<noteq> [] \<and> hd w \<noteq> c \<and> last w \<noteq> c"
  using assms unfolding whiteSpaceEncodings_explicit isDecimalDigit_def by auto

lemma take_self_hd:
  assumes "take (length w) s = w" and "w \<noteq> []"
  shows "s \<noteq> [] \<and> hd w = hd s"
proof (cases s)
  case Nil
  with assms show ?thesis by simp
next
  case (Cons a s')
  with assms show ?thesis by (cases w) auto
qed

lemma leadingLen_zero:
  assumes "s \<noteq> []" and "\<forall>w \<in> set encs. w \<noteq> [] \<and> hd w \<noteq> hd s"
  shows "leadingLen encs s = 0"
proof -
  have "find (\<lambda>w. take (length w) s = w) encs = None"
    using assms(2) take_self_hd [of _ s] by (auto simp: find_None_iff)
  then show ?thesis by (simp add: leadingLen_def)
qed

lemma trimLeading_id:
  assumes "s \<noteq> []" and "\<forall>w \<in> set encs. w \<noteq> [] \<and> hd w \<noteq> hd s"
  shows "trimLeading encs s = s"
  using leadingLen_zero [OF assms] by (subst trimLeading.simps) simp

lemma TrimSpace_id:
  assumes "s \<noteq> []" and "isDecimalDigit (hd s)" and "isDecimalDigit (last s)"
  shows "TrimSpace s = s"
proof -
  have l: "trimLeading whiteSpaceEncodings s = s"
    using assms(1) digit_not_in_encodings [OF assms(2)] by (intro trimLeading_id) auto
  have "\<forall>w \<in> set (map rev whiteSpaceEncodings). w \<noteq> [] \<and> hd w \<noteq> hd (rev s)"
    using assms(1) digit_not_in_encodings [OF assms(3)] by (auto simp: hd_rev)
  then have "trimLeading (map rev whiteSpaceEncodings) (rev s) = rev s"
    using assms(1) by (intro trimLeading_id) auto
  with l show ?thesis by (simp add: TrimSpace_def)
qed

lemma Split_no_sep: "sep \<notin> set xs \<Longrightarrow> Split xs sep = [xs]"
  by (induction xs) auto

lemma Split_at_sep: "sep \<notin> set xs \<Longrightarrow> Split (xs @ sep # ys) sep = xs # Split ys sep"
  by (induction xs) auto

lemma dash_not_digit: "\<not> isDecimalDigit (CHR ''-'')"
  by (simp add: isDecimalDigit_def)

lemma FormatUint_no_dash: "CHR ''-'' \<notin> set (FormatUint n)"
  using FormatUint_digits [of n] dash_not_digit by auto

lemma FormatUint_ends:
  "isDecimalDigit (hd (FormatUint n))" "isDecimalDigit (last (FormatUint n))"
  using FormatUint_digits [of n] FormatUint_nonempty [of n] by auto

subsection \<open>Parsing a numeral and a range\<close>

lemma unat_uint32_less: "unat (n :: uint32) < 2 ^ 32"
  using unsigned_less [of n, where 'a = nat] by simp

lemma parse_scalarLiteral: "parseMagicHeaderInterval (scalarLiteral n) = Inr (n, n)"
proof -
  have t: "TrimSpace (FormatUint (unat n)) = FormatUint (unat n)"
    using FormatUint_nonempty FormatUint_ends by (intro TrimSpace_id)
  have s: "Split (FormatUint (unat n)) (CHR ''-'') = [FormatUint (unat n)]"
    using FormatUint_no_dash by (rule Split_no_sep)
  have p: "ParseUint (FormatUint (unat n)) 32 = Inr (unat n)"
    using unat_uint32_less by (rule ParseUint_FormatUint)
  show ?thesis
    by (simp add: parseMagicHeaderInterval_def scalarLiteral_def t s p FormatUint_nonempty)
qed

lemma parse_rangeLiteral:
  assumes "n \<le> m"
  shows "parseMagicHeaderInterval (rangeLiteral n m) = Inr (n, m)"
proof -
  let ?lit = "FormatUint (unat n) @ CHR ''-'' # FormatUint (unat m)"
  have "hd ?lit = hd (FormatUint (unat n))" "last ?lit = last (FormatUint (unat m))"
    using FormatUint_nonempty by simp_all
  then have t: "TrimSpace ?lit = ?lit"
    using FormatUint_ends by (intro TrimSpace_id) simp_all
  have s: "Split ?lit (CHR ''-'') = [FormatUint (unat n), FormatUint (unat m)]"
    using FormatUint_no_dash by (simp add: Split_at_sep Split_no_sep)
  have p: "ParseUint (FormatUint (unat n)) 32 = Inr (unat n)"
    "ParseUint (FormatUint (unat m)) 32 = Inr (unat m)"
    using unat_uint32_less by (simp_all add: ParseUint_FormatUint)
  show ?thesis
    using assms by (simp add: parseMagicHeaderInterval_def rangeLiteral_def t s p
        FormatUint_nonempty)
qed

lemma parseMagicHeaderInterval_ordered:
  assumes "parseMagicHeaderInterval v = Inr (lo, hi)"
  shows "lo \<le> hi"
  using assms
  by (auto simp: parseMagicHeaderInterval_def Let_def split: if_splits sum.splits)

subsection \<open>Round trip\<close>

text \<open>
  Claim C4, as stated, includes the range literals \<open>N-M\<close> with \<open>N = M\<close>. The literal
  \<open>5-5\<close> parses to the interval \<open>[5, 5]\<close>, which is emitted as the scalar \<open>5\<close>. A literal
  with a leading zero, such as \<open>007\<close>, is not returned either.
\<close>

theorem header_literal_counterexample:
  "parseThenEmit ''5-5'' = Inr ''5'' \<and> parseThenEmit ''5-5'' \<noteq> Inr ''5-5'' \<and>
   parseThenEmit ''007'' = Inr ''7''"
proof -
  have "parseMagicHeaderInterval ''5-5'' = Inr (5, 5)"
    by code_simp
  moreover have "formatMagicHeaderInterval 5 5 = ''5''"
    by code_simp
  moreover have "parseMagicHeaderInterval ''007'' = Inr (7, 7)"
    by code_simp
  moreover have "formatMagicHeaderInterval 7 7 = ''7''"
    by code_simp
  ultimately show ?thesis
    by (simp add: parseThenEmit_def)
qed

text \<open>
  Claim C4, amended. For every 32-bit unsigned \<open>N\<close>, parsing the decimal numeral of \<open>N\<close>
  (as \<open>strconv.FormatUint\<close> prints it, without leading zeros) and emitting the result
  returns the same literal; and for every \<open>N < M\<close>, parsing the literal \<open>N-M\<close> of the two
  numerals and emitting the result returns the same literal.
\<close>

theorem header_literal_roundtrip:
  "parseThenEmit (scalarLiteral n) = Inr (scalarLiteral n) \<and>
   (n < m \<longrightarrow> parseThenEmit (rangeLiteral n m) = Inr (rangeLiteral n m))"
proof -
  have "parseThenEmit (scalarLiteral n) = Inr (formatMagicHeaderInterval n n)"
    by (simp add: parseThenEmit_def parse_scalarLiteral)
  then have "parseThenEmit (scalarLiteral n) = Inr (scalarLiteral n)"
    by (simp add: formatMagicHeaderInterval_def scalarLiteral_def)
  moreover have "parseThenEmit (rangeLiteral n m) = Inr (rangeLiteral n m)" if "n < m"
  proof -
    have "parseThenEmit (rangeLiteral n m) = Inr (formatMagicHeaderInterval n m)"
      using that by (simp add: parseThenEmit_def parse_rangeLiteral)
    with that show ?thesis
      by (simp add: formatMagicHeaderInterval_def rangeLiteral_def)
  qed
  ultimately show ?thesis by simp
qed

theorem header_literal_roundtrip_witness:
  "parseThenEmit ''7'' = Inr ''7'' \<and> parseThenEmit ''100-200'' = Inr ''100-200''"
proof -
  have l: "scalarLiteral 7 = ''7''" "rangeLiteral 100 200 = ''100-200''"
    by code_simp+
  have "(100 :: uint32) < 200" by (simp add: word_less_nat_alt)
  then show ?thesis
    using header_literal_roundtrip [of 7 0] header_literal_roundtrip [of 100 200] l by simp
qed

section \<open>Properties of ParseASecConfig\<close>

lemma setHeadersOrdered_zero: "setHeadersOrdered (Some zeroASecConfig)"
  by (simp add: setHeadersOrdered_def zeroASecConfig_def)

lemma setHeadersOrdered_orZero:
  "setHeadersOrdered a \<Longrightarrow> setHeadersOrdered (Some (orZero a))"
  by (cases a) (simp_all add: orZero_def setHeadersOrdered_zero)

lemma readIntKey_ordered:
  assumes "\<And>v c. setHeadersOrdered (Some c) \<Longrightarrow> setHeadersOrdered (Some (store v c))"
  shows "\<forall>b b'. setHeadersOrdered b \<longrightarrow>
           readIntKey keyInt section name store b = Inr b' \<longrightarrow> setHeadersOrdered b'"
  using assms setHeadersOrdered_orZero
  by (auto simp: readIntKey_def split: option.splits sum.splits)

lemma readTextKey_ordered:
  assumes "\<And>v c. setHeadersOrdered (Some c) \<Longrightarrow> setHeadersOrdered (Some (store v c))"
  shows "\<forall>b b'. setHeadersOrdered b \<longrightarrow>
           readTextKey section name store b = Inr b' \<longrightarrow> setHeadersOrdered b'"
  using assms setHeadersOrdered_orZero
  by (auto simp: readTextKey_def split: option.splits)

lemma readHeaderKey_ordered:
  assumes "\<And>lo hi c. lo \<le> hi \<Longrightarrow> setHeadersOrdered (Some c) \<Longrightarrow>
           setHeadersOrdered (Some (store lo hi c))"
  shows "\<forall>b b'. setHeadersOrdered b \<longrightarrow>
           readHeaderKey section name store b = Inr b' \<longrightarrow> setHeadersOrdered b'"
  using assms setHeadersOrdered_orZero parseMagicHeaderInterval_ordered
  by (auto simp: readHeaderKey_def split: option.splits sum.splits prod.splits)

lemma parseSteps_ordered:
  "list_all (\<lambda>step. \<forall>b b'. setHeadersOrdered b \<longrightarrow> step b = Inr b' \<longrightarrow> setHeadersOrdered b')
     (parseSteps keyInt section)"
  unfolding parseSteps_def list.pred_inject
  by (intro conjI readIntKey_ordered readHeaderKey_ordered readTextKey_ordered TrueI)
    (simp_all add: setHeadersOrdered_def)

lemma runSteps_invariant:
  assumes "runSteps steps a = Inr a'" and "P a"
    and "list_all (\<lambda>step. \<forall>b b'. P b \<longrightarrow> step b = Inr b' \<longrightarrow> P b') steps"
  shows "P a'"
  using assms
proof (induction steps arbitrary: a)
  case Nil
  then show ?case by simp
next
  case (Cons step steps)
  from Cons.prems(1) obtain b where b: "step a = Inr b" "runSteps steps b = Inr a'"
    by (auto split: sum.splits)
  have "P b" using Cons.prems(2,3) b(1) by auto
  then show ?case using Cons.IH [OF b(2)] Cons.prems(3) by auto
qed

lemma readASecConfig_ordered:
  assumes "readASecConfig keyInt section = Inr a"
  shows "setHeadersOrdered a"
proof -
  have "setHeadersOrdered None" by (simp add: setHeadersOrdered_def)
  with assms show ?thesis
    unfolding readASecConfig_def
    using parseSteps_ordered by (rule runSteps_invariant)
qed

lemma effective_intervals_ordered:
  assumes "setHeadersOrdered a"
  shows "list_all boundsOrdered (collectEffectiveHeaderIntervals a)"
  using assms
  by (cases a)
    (auto simp: setHeadersOrdered_def collectEffectiveHeaderIntervals_def boundsOrdered_def
      defaultInitPacketMagicHeader_def defaultResponsePacketMagicHeader_def
      defaultUnderloadPacketMagicHeader_def defaultTransportPacketMagicHeader_def
      split: if_splits)

text \<open>
  Claim C10. In the configuration that \<open>ParseASecConfig\<close> has built when it calls
  \<open>ValidateASecConfig\<close>, and so in every configuration it returns without error, each
  of the four effective header intervals has its lower bound at most its upper bound:
  the loop of \<open>ValidateASecConfig\<close> over the intervals finds nothing, and
  \<open>ValidateASecConfig\<close> does not return the error "invalid magic header range: lower
  bound cannot exceed upper bound".
\<close>

theorem parsed_header_bounds_ordered:
  "(readASecConfig keyInt section = Inr a \<longrightarrow>
      list_all boundsOrdered (collectEffectiveHeaderIntervals a) \<and>
      checkIntervalBounds (collectEffectiveHeaderIntervals a) = None \<and>
      ValidateASecConfig a \<noteq> Some errHeaderRange) \<and>
   (ParseASecConfig keyInt section = Inr a \<longrightarrow>
      list_all boundsOrdered (collectEffectiveHeaderIntervals a))"
proof -
  have d: "errJc \<noteq> errHeaderRange" "errJminJmax \<noteq> errHeaderRange"
    "errJmax \<noteq> errHeaderRange" "errPacketSizeLong \<noteq> errHeaderRange"
    "errPacketSizeShort \<noteq> errHeaderRange" "errHeaderUnique \<noteq> errHeaderRange"
    using error_texts_distinct by auto
  have r: "list_all boundsOrdered (collectEffectiveHeaderIntervals a) \<and>
      checkIntervalBounds (collectEffectiveHeaderIntervals a) = None \<and>
      ValidateASecConfig a \<noteq> Some errHeaderRange"
    if "readASecConfig keyInt section = Inr a"
  proof -
    have o: "list_all boundsOrdered (collectEffectiveHeaderIntervals a)"
      using that by (intro effective_intervals_ordered readASecConfig_ordered)
    have "ValidateASecConfig a \<noteq> Some errHeaderRange"
    proof (cases a)
      case None
      then show ?thesis by (simp add: ValidateASecConfig_def)
    next
      case (Some c)
      with o show ?thesis
        using validateJunk_cases [of c] d
        by (auto simp: ValidateASecConfig_eq validateHeaders_eq packetSizeError_def
            split: if_splits)
    qed
    with o show ?thesis by (simp add: checkIntervalBounds_eq)
  qed
  moreover have "readASecConfig keyInt section = Inr a"
    if "ParseASecConfig keyInt section = Inr a"
    using that by (auto simp: ParseASecConfig_def split: sum.splits option.splits)
  ultimately show ?thesis by blast
qed

theorem parsed_header_bounds_ordered_witness:
  "readASecConfig keyIntFifteen sectionH1Range = Inr (Some configParsedExample) \<and>
   ParseASecConfig keyIntFifteen sectionH1Range = Inr (Some configParsedExample) \<and>
   list_all boundsOrdered (collectEffectiveHeaderIntervals (Some configParsedExample)) \<and>
   ValidateASecConfig (Some configParsedExample) \<noteq> Some errHeaderRange"
proof -
  have p: "parseMagicHeaderInterval ''100-200'' = Inr (100, 200)"
    by code_simp
  have r: "readASecConfig keyIntFifteen sectionH1Range = Inr (Some configParsedExample)"
    by (simp add: readASecConfig_def parseSteps_def sectionH1Range_def readIntKey_def
        readHeaderKey_def readTextKey_def keyIntFifteen_def orZero_def p
        configParsedExample_def zeroASecConfig_def)
  have v: "ValidateASecConfig (Some configParsedExample) = None"
    by (simp add: ValidateASecConfig_def validateJunk_def packetSizes_def validateHeaders_def
        collectEffectiveHeaderIntervals_def configParsedExample_def zeroASecConfig_def
        defaultResponsePacketMagicHeader_def defaultUnderloadPacketMagicHeader_def
        defaultTransportPacketMagicHeader_def word_le_nat_alt word_less_nat_alt)
  have q: "ParseASecConfig keyIntFifteen sectionH1Range = Inr (Some configParsedExample)"
    by (simp add: ParseASecConfig_def r v)
  show ?thesis
    using parsed_header_bounds_ordered
      [of keyIntFifteen sectionH1Range "Some configParsedExample"] r q
    by simp
qed

section \<open>Properties of CreateIPCRequest\<close>

subsection \<open>The request as a list of lines\<close>

lemma concat_render_filter:
  "concat (map renderLine (map h (filter P xs))) =
     concat (map (\<lambda>f. if P f then renderLine (h f) else []) xs)"
  by (induction xs) simp_all

lemma optional_line:
  "(case x of None \<Rightarrow> [] | Some v \<Rightarrow> k @ v @ n) = (if x \<noteq> None then k @ verbatim x @ n else [])"
  by (cases x) (simp_all add: verbatim_def)

lemma headerText_eq: "headerText lo hi = formatMagicHeaderInterval lo hi"
  by (simp add: headerText_def formatMagicHeaderInterval_def scalarLiteral_def rangeLiteral_def)

lemma aSecBuilderString_eq:
  "aSecBuilderString c = concat (map renderLine (awgKeyValues (Some c)))"
  unfolding awgKeyValues_def option.case concat_render_filter awgFieldOrder_def
    aSecBuilderString_def optional_line
  by (simp add: renderLine_def headerText_eq split del: if_split cong: if_cong)

lemma peerRequest_eq: "peerRequest peer = concat (map renderLine (peerKeyValues peer))"
proof -
  have a: "concat (map (\<lambda>ip. ''allowed_ip='' @ ip @ [newline]) ips) =
      concat (map renderLine (map (\<lambda>ip. (''allowed_ip'', ip)) ips))" for ips
    by (induction ips) (simp_all add: renderLine_def)
  show ?thesis
    unfolding peerRequest_def peerKeyValues_def a
    by (cases "Endpoint_p peer"; cases "AllowedIPs peer = []") (simp_all add: renderLine_def)
qed

lemma peers_eq:
  "concat (map peerRequest peers) = concat (map renderLine (concat (map peerKeyValues peers)))"
  by (induction peers) (simp_all add: peerRequest_eq)

lemma request_eq:
  "CreateIPCRequest conf =
     Inr \<lparr> IpcRequest = concat (map renderLine (ipcKeyValues conf)), DNS_s = DNS conf,
           DeviceAddr = Endpoint conf, MTU_s = MTU conf \<rparr>"
proof -
  have l: "(case p of None \<Rightarrow> [] | Some port \<Rightarrow> ''listen_port='' @ Sprintf_d port @ [newline]) =
      concat (map renderLine
        (case p of None \<Rightarrow> [] | Some port \<Rightarrow> [(''listen_port'', Sprintf_d port)]))" for p
    by (cases p) (simp_all add: renderLine_def)
  have a: "(case a of None \<Rightarrow> [] | Some c \<Rightarrow> aSecBuilderString c) =
      concat (map renderLine (awgKeyValues a))" for a
    by (cases a) (simp_all add: aSecBuilderString_eq, simp add: awgKeyValues_def)
  show ?thesis
    unfolding CreateIPCRequest_def Let_def l a peers_eq ipcKeyValues_def
    by (simp add: renderLine_def)
qed

subsection \<open>Reading the lines back\<close>

lemma ipcLines_line:
  "singleLine l \<Longrightarrow> ipcLines (l @ newline # rest) = l # ipcLines rest"
  by (induction l) (auto simp: singleLine_def)

lemma lineKeyValue_render:
  "CHR ''='' \<notin> set k \<Longrightarrow> lineKeyValue (k @ CHR ''='' # v) = (k, v)"
  by (induction k) (auto simp: lineKeyValue_def)

lemma lines_of_rendered:
  "list_all readableLine kvs \<Longrightarrow>
     map lineKeyValue (ipcLines (concat (map renderLine kvs))) = kvs"
proof (induction kvs)
  case Nil
  show ?case by simp
next
  case (Cons kv kvs)
  obtain k v where kv: "kv = (k, v)" by (cases kv)
  from Cons.prems have "readableLine kv" and rest: "list_all readableLine kvs"
    by simp_all
  with kv have r: "CHR ''='' \<notin> set k" "singleLine k" "singleLine v"
    by (simp_all add: readableLine_def)
  have "newline \<noteq> CHR ''=''" by (simp add: newline_def)
  with r have sl: "singleLine (k @ CHR ''='' # v)" by (simp add: singleLine_def)
  let ?rest = "concat (map renderLine kvs)"
  have e: "concat (map renderLine (kv # kvs)) = (k @ CHR ''='' # v) @ newline # ?rest"
    using kv by (simp add: renderLine_def)
  have "ipcLines (concat (map renderLine (kv # kvs))) = (k @ CHR ''='' # v) # ipcLines ?rest"
    unfolding e using sl by (rule ipcLines_line)
  then have "map lineKeyValue (ipcLines (concat (map renderLine (kv # kvs)))) =
      lineKeyValue (k @ CHR ''='' # v) # map lineKeyValue (ipcLines ?rest)"
    by (simp only: list.map)
  also have "\<dots> = (k, v) # kvs"
    using Cons.IH [OF rest] lineKeyValue_render [OF r(1)] by simp
  finally show ?case unfolding kv .
qed

subsection \<open>The printed values hold no line break\<close>

lemma newline_not_digit: "\<not> isDecimalDigit newline"
  by (simp add: isDecimalDigit_def newline_def)

lemma singleLine_FormatUint: "singleLine (FormatUint n)"
  using FormatUint_digits [of n] newline_not_digit by (auto simp: singleLine_def)

lemma singleLine_Sprintf_d: "singleLine (Sprintf_d v)"
  using singleLine_FormatUint by (simp add: Sprintf_d_def singleLine_def newline_def)

lemma singleLine_headerText: "singleLine (headerText lo hi)"
  using singleLine_FormatUint
  by (simp add: headerText_def scalarLiteral_def rangeLiteral_def singleLine_def newline_def)

lemma readable_field:
  assumes "singleLine (verbatim (i1 c))" "singleLine (verbatim (i2 c))"
    "singleLine (verbatim (i3 c))" "singleLine (verbatim (i4 c))" "singleLine (verbatim (i5 c))"
  shows "readableLine (fieldKey f, fieldValue c f)"
  using assms singleLine_Sprintf_d singleLine_headerText
  by (cases f) (simp_all add: readableLine_def, simp_all add: singleLine_def newline_def)

lemma readable_awg:
  assumes "case a of None \<Rightarrow> True
           | Some c \<Rightarrow> singleLine (verbatim (i1 c)) \<and> singleLine (verbatim (i2 c)) \<and>
                  singleLine (verbatim (i3 c)) \<and> singleLine (verbatim (i4 c)) \<and>
                  singleLine (verbatim (i5 c))"
  shows "list_all readableLine (awgKeyValues a)"
proof (cases a)
  case None
  then show ?thesis by (simp add: awgKeyValues_def)
next
  case (Some c)
  with assms have "readableLine (fieldKey f, fieldValue c f)" for f
    by (intro readable_field) simp_all
  with Some show ?thesis
    by (simp add: awgKeyValues_def list_all_iff)
qed

lemma readable_peer:
  assumes "singleLinePeer peer"
  shows "list_all readableLine (peerKeyValues peer)"
proof -
  have "singleLine ''0.0.0.0/0''" "singleLine ''::0/0''"
    "singleLine ''public_key''" "singleLine ''persistent_keepalive_interval''"
    "singleLine ''preshared_key''" "singleLine ''endpoint''" "singleLine ''allowed_ip''"
    by (simp_all add: singleLine_def newline_def)
  with assms singleLine_Sprintf_d show ?thesis
    by (cases "Endpoint_p peer")
      (simp_all add: peerKeyValues_def singleLinePeer_def readableLine_def verbatim_def
        list_all_iff)
qed

lemma readable_peers:
  "list_all singleLinePeer peers \<Longrightarrow> list_all readableLine (concat (map peerKeyValues peers))"
  by (induction peers) (simp_all add: readable_peer)

lemma readable_request:
  assumes "singleLineConfig conf"
  shows "list_all readableLine (ipcKeyValues conf)"
proof -
  have "singleLine ''private_key''" "singleLine ''listen_port''"
    by (simp_all add: singleLine_def newline_def)
  with assms singleLine_Sprintf_d show ?thesis
    by (cases "ListenPort conf")
      (simp_all add: ipcKeyValues_def singleLineConfig_def readable_awg readable_peers
        readableLine_def)
qed

subsection \<open>The AmneziaWG lines among the lines of the request\<close>

lemma awgKeys_explicit:
  "set awgKeys = {''jc'', ''jmin'', ''jmax'', ''s1'', ''s2'', ''s3'', ''s4'',
                  ''h1'', ''h2'', ''h3'', ''h4'', ''i1'', ''i2'', ''i3'', ''i4'', ''i5''}"
  by (simp add: awgKeys_def awgFieldOrder_def)

lemma fieldKey_is_awgKey: "fieldKey f \<in> set awgKeys"
  unfolding awgKeys_explicit by (cases f) simp_all

lemma fieldKey_inj: "fieldKey f = fieldKey g \<longleftrightarrow> f = g"
  by (cases f; cases g) simp_all

lemma filter_awg_awg: "filter isAwgKey (awgKeyValues a) = awgKeyValues a"
  by (cases a) (simp_all add: awgKeyValues_def isAwgKey_def fieldKey_is_awgKey)

lemma filter_awg_peer: "filter isAwgKey (peerKeyValues peer) = []"
  by (cases "Endpoint_p peer")
    (simp_all add: peerKeyValues_def isAwgKey_def awgKeys_explicit filter_empty_conv)

lemma filter_awg_peers: "filter isAwgKey (concat (map peerKeyValues peers)) = []"
  by (induction peers) (simp_all add: filter_awg_peer)

lemma filter_awg_request: "filter isAwgKey (ipcKeyValues conf) = awgKeyValues (ASecConfig conf)"
  by (cases "ListenPort conf")
    (simp_all add: ipcKeyValues_def filter_awg_awg filter_awg_peers,
     simp_all add: isAwgKey_def awgKeys_explicit)

lemma awg_key_present_iff:
  "fieldKey f \<in> set (map fst (awgKeyValues (Some c))) \<longleftrightarrow> fieldIsSet c f"
proof -
  have "f \<in> set awgFieldOrder"
    by (cases f) (simp_all add: awgFieldOrder_def)
  then show ?thesis
    by (auto simp: awgKeyValues_def fieldKey_inj image_iff)
qed

lemma awg_key_among_all:
  "fieldKey f \<in> set (map fst kvs) \<longleftrightarrow> fieldKey f \<in> set (map fst (filter isAwgKey kvs))"
  using fieldKey_is_awgKey [of f] by (force simp: isAwgKey_def)

text \<open>
  Claim C5, as stated, asks that the text of the request has a line for an AmneziaWG
  field only if the field is set. The configuration read from a section whose \<open>I1\<close> is
  \<open><b 0x01>\<close>, a line break, \<open>jc=5\<close> is valid and has no \<open>Jc\<close>; \<open>CreateIPCRequest\<close> writes
  \<open>I1\<close> as it is, and the text of the request has the line \<open>jc=5\<close>.
\<close>

theorem ipc_line_break_counterexample:
  "ParseASecConfig keyIntFifteen sectionLineBreak = Inr (Some configLineBreak) \<and>
   ValidateASecConfig (Some configLineBreak) = None \<and>
   \<not> fieldIsSet configLineBreak Jc \<and>
   CreateIPCRequest deviceLineBreak =
     Inr \<lparr> IpcRequest =
             ''private_key=00ff'' @ [newline] @
             ''i1=<b 0x01>'' @ [newline] @
             ''jc=5'' @ [newline] @
             ''public_key=ab01'' @ [newline] @
             ''persistent_keepalive_interval=25'' @ [newline] @
             ''preshared_key=0000'' @ [newline] @
             ''endpoint=94.140.11.15:51820'' @ [newline] @
             ''allowed_ip=0.0.0.0/0'' @ [newline] @
             ''allowed_ip=::0/0'' @ [newline],
           DNS_s = [''1.1.1.1''], DeviceAddr = [''10.5.0.2''], MTU_s = 1420 \<rparr> \<and>
   (\<exists>s. CreateIPCRequest deviceLineBreak = Inr s \<and>
        map lineKeyValue (ipcLines (IpcRequest s)) =
          [(''private_key'', ''00ff''), (''i1'', ''<b 0x01>''), (''jc'', ''5''),
           (''public_key'', ''ab01''), (''persistent_keepalive_interval'', ''25''),
           (''preshared_key'', ''0000''), (''endpoint'', ''94.140.11.15:51820''),
           (''allowed_ip'', ''0.0.0.0/0''), (''allowed_ip'', ''::0/0'')] \<and>
        fieldKey Jc \<in> set (map fst (map lineKeyValue (ipcLines (IpcRequest s)))) \<and>
        filter isAwgKey (map lineKeyValue (ipcLines (IpcRequest s))) \<noteq>
          awgKeyValues (ASecConfig deviceLineBreak))"
proof -
  have v: "ValidateASecConfig (Some configLineBreak) = None"
    by (simp add: ValidateASecConfig_def validateJunk_def packetSizes_def validateHeaders_def
        collectEffectiveHeaderIntervals_def configLineBreak_def zeroASecConfig_def
        defaultInitPacketMagicHeader_def defaultResponsePacketMagicHeader_def
        defaultUnderloadPacketMagicHeader_def defaultTransportPacketMagicHeader_def
        word_le_nat_alt word_less_nat_alt)
  have r: "readASecConfig keyIntFifteen sectionLineBreak = Inr (Some configLineBreak)"
    by (simp add: readASecConfig_def parseSteps_def sectionLineBreak_def readIntKey_def
        readHeaderKey_def readTextKey_def orZero_def configLineBreak_def)
  have p: "ParseASecConfig keyIntFifteen sectionLineBreak = Inr (Some configLineBreak)"
    by (simp add: ParseASecConfig_def r v)
  have n: "\<not> fieldIsSet configLineBreak Jc"
    by (simp add: configLineBreak_def zeroASecConfig_def)
  have k: "Sprintf_d 25 = ''25''"
    by code_simp
  let ?text = "''private_key=00ff'' @ [newline] @
             ''i1=<b 0x01>'' @ [newline] @
             ''jc=5'' @ [newline] @
             ''public_key=ab01'' @ [newline] @
             ''persistent_keepalive_interval=25'' @ [newline] @
             ''preshared_key=0000'' @ [newline] @
             ''endpoint=94.140.11.15:51820'' @ [newline] @
             ''allowed_ip=0.0.0.0/0'' @ [newline] @
             ''allowed_ip=::0/0'' @ [newline]"
  let ?s = "\<lparr> IpcRequest = ?text,
             DNS_s = [''1.1.1.1''], DeviceAddr = [''10.5.0.2''], MTU_s = 1420 \<rparr>"
  have c: "CreateIPCRequest deviceLineBreak = Inr ?s"
    by (simp add: CreateIPCRequest_def deviceLineBreak_def aSecBuilderString_def
        configLineBreak_def zeroASecConfig_def textLineBreak_def peerRequest_def k)
  have l: "map lineKeyValue (ipcLines (IpcRequest ?s)) =
          [(''private_key'', ''00ff''), (''i1'', ''<b 0x01>''), (''jc'', ''5''),
           (''public_key'', ''ab01''), (''persistent_keepalive_interval'', ''25''),
           (''preshared_key'', ''0000''), (''endpoint'', ''94.140.11.15:51820''),
           (''allowed_ip'', ''0.0.0.0/0''), (''allowed_ip'', ''::0/0'')]"
    by (simp add: newline_def lineKeyValue_def)
  have a: "awgKeyValues (ASecConfig deviceLineBreak) = [(''i1'', textLineBreak)]"
    by (simp add: awgKeyValues_def awgFieldOrder_def deviceLineBreak_def configLineBreak_def
        zeroASecConfig_def verbatim_def)
  have m: "fieldKey Jc \<in> set (map fst (map lineKeyValue (ipcLines (IpcRequest ?s))))"
    unfolding l by simp
  have f: "filter isAwgKey (map lineKeyValue (ipcLines (IpcRequest ?s))) \<noteq>
      awgKeyValues (ASecConfig deviceLineBreak)"
    unfolding l a by (simp add: isAwgKey_def awgKeys_explicit)
  have e: "\<exists>s. CreateIPCRequest deviceLineBreak = Inr s \<and>
        map lineKeyValue (ipcLines (IpcRequest s)) =
          [(''private_key'', ''00ff''), (''i1'', ''<b 0x01>''), (''jc'', ''5''),
           (''public_key'', ''ab01''), (''persistent_keepalive_interval'', ''25''),
           (''preshared_key'', ''0000''), (''endpoint'', ''94.140.11.15:51820''),
           (''allowed_ip'', ''0.0.0.0/0''), (''allowed_ip'', ''::0/0'')] \<and>
        fieldKey Jc \<in> set (map fst (map lineKeyValue (ipcLines (IpcRequest s)))) \<and>
        filter isAwgKey (map lineKeyValue (ipcLines (IpcRequest s))) \<noteq>
          awgKeyValues (ASecConfig deviceLineBreak)"
    by (intro exI [of _ ?s] conjI) (rule c l m f)+
  show ?thesis
    by (intro conjI) (rule p v n c e)+
qed

text \<open>
  Claim C5, amended. For every device configuration in which no text (the secret key,
  \<open>I1\<close> to \<open>I5\<close>, the keys, the endpoint and the allowed prefixes of the peers) holds a
  line break, \<open>CreateIPCRequest\<close> returns a request, and the lines of its text, cut at
  the line breaks and at the first equals sign, are: the private key, the optional
  listen port, the AmneziaWG lines, the lines of the peers. The text has a line with
  the key of an AmneziaWG field if and only if the field is set; the lines with an
  AmneziaWG key are those of the set fields in the fixed order \<open>jc, jmin, jmax, s1, s2,
  s3, s4, h1, h2, h3, h4, i1, i2, i3, i4, i5\<close>, the value of an H field being \<open>N\<close> for a
  scalar and \<open>N-M\<close> for a range and that of an I field its text; and without an
  AmneziaWG configuration there is no such line.
\<close>

theorem ipc_awg_lines:
  assumes "singleLineConfig conf"
  shows "\<exists>s. CreateIPCRequest conf = Inr s \<and>
        IpcRequest s = concat (map renderLine (ipcKeyValues conf)) \<and>
        map lineKeyValue (ipcLines (IpcRequest s)) = ipcKeyValues conf \<and>
        filter isAwgKey (map lineKeyValue (ipcLines (IpcRequest s))) =
          awgKeyValues (ASecConfig conf) \<and>
        (\<forall>c f. ASecConfig conf = Some c \<longrightarrow>
           (fieldKey f \<in> set (map fst (map lineKeyValue (ipcLines (IpcRequest s)))) \<longleftrightarrow>
            fieldIsSet c f)) \<and>
        (ASecConfig conf = None \<longrightarrow>
           filter isAwgKey (map lineKeyValue (ipcLines (IpcRequest s))) = [])"
proof -
  let ?s = "\<lparr> IpcRequest = concat (map renderLine (ipcKeyValues conf)), DNS_s = DNS conf,
             DeviceAddr = Endpoint conf, MTU_s = MTU conf \<rparr>"
  have lines: "map lineKeyValue (ipcLines (IpcRequest ?s)) = ipcKeyValues conf"
    using lines_of_rendered [OF readable_request [OF assms]] by simp
  have none: "filter isAwgKey (ipcKeyValues conf) = []" if "ASecConfig conf = None"
    using that filter_awg_request [of conf] by (simp add: awgKeyValues_def)
  have present: "fieldKey f \<in> set (map fst (ipcKeyValues conf)) \<longleftrightarrow> fieldIsSet c f"
    if "ASecConfig conf = Some c" for c f
    using that awg_key_among_all [of f "ipcKeyValues conf"] filter_awg_request [of conf]
      awg_key_present_iff [of f c]
    by simp
  show ?thesis
  proof (intro exI [of _ ?s] conjI)
    show "CreateIPCRequest conf = Inr ?s" by (rule request_eq)
    show "IpcRequest ?s = concat (map renderLine (ipcKeyValues conf))" by simp
    show "map lineKeyValue (ipcLines (IpcRequest ?s)) = ipcKeyValues conf" by (rule lines)
    show "filter isAwgKey (map lineKeyValue (ipcLines (IpcRequest ?s))) =
        awgKeyValues (ASecConfig conf)"
      unfolding lines by (rule filter_awg_request)
    show "\<forall>c f. ASecConfig conf = Some c \<longrightarrow>
        (fieldKey f \<in> set (map fst (map lineKeyValue (ipcLines (IpcRequest ?s)))) \<longleftrightarrow>
         fieldIsSet c f)"
      unfolding lines using present by blast
    show "ASecConfig conf = None \<longrightarrow>
        filter isAwgKey (map lineKeyValue (ipcLines (IpcRequest ?s))) = []"
      unfolding lines using none by blast
  qed
qed

text \<open>
  An instance with fields of every kind: the lines with an AmneziaWG key, read from
  the text of the request, are those of the nine set fields, in order.
\<close>

theorem ipc_awg_lines_witness:
  "singleLineConfig deviceManyFields \<and>
   (\<exists>s. CreateIPCRequest deviceManyFields = Inr s \<and>
         map lineKeyValue (ipcLines (IpcRequest s)) =
           [(''private_key'', ''00ff''), (''listen_port'', ''51820''),
            (''jc'', ''4''), (''jmin'', ''40''), (''jmax'', ''70''),
            (''s1'', ''15''), (''s2'', ''18''), (''h1'', ''5''), (''h2'', ''100-200''),
            (''i1'', ''<b 0xA1B2C3D4E5F6><c>''), (''i3'', ''<r 16>''),
            (''public_key'', ''ab01''), (''persistent_keepalive_interval'', ''25''),
            (''preshared_key'', ''0000''), (''endpoint'', ''94.140.11.15:51820''),
            (''allowed_ip'', ''10.0.0.0/8''), (''allowed_ip'', ''fd00::/8'')] \<and>
         filter isAwgKey (map lineKeyValue (ipcLines (IpcRequest s))) =
           [(''jc'', ''4''), (''jmin'', ''40''), (''jmax'', ''70''),
            (''s1'', ''15''), (''s2'', ''18''), (''h1'', ''5''), (''h2'', ''100-200''),
            (''i1'', ''<b 0xA1B2C3D4E5F6><c>''), (''i3'', ''<r 16>'')] \<and>
         fieldKey H2 \<in> set (map fst (map lineKeyValue (ipcLines (IpcRequest s)))) \<and>
         fieldKey H3 \<notin> set (map fst (map lineKeyValue (ipcLines (IpcRequest s)))) \<and>
         fieldKey S3 \<notin> set (map fst (map lineKeyValue (ipcLines (IpcRequest s)))) \<and>
         fieldKey I2 \<notin> set (map fst (map lineKeyValue (ipcLines (IpcRequest s)))))"
proof -
  have s: "singleLineConfig deviceManyFields"
    by (simp add: singleLineConfig_def singleLinePeer_def singleLine_def deviceManyFields_def
        configManyFields_def zeroASecConfig_def verbatim_def newline_def)
  have n: "Sprintf_d 4 = ''4''" "Sprintf_d 40 = ''40''" "Sprintf_d 70 = ''70''"
    "Sprintf_d 15 = ''15''" "Sprintf_d 18 = ''18''" "Sprintf_d 25 = ''25''"
    "Sprintf_d 51820 = ''51820''"
    by code_simp+
  have h: "headerText 5 5 = ''5''" "headerText 100 200 = ''100-200''"
    by code_simp+
  have a: "awgKeyValues (ASecConfig deviceManyFields) =
      [(''jc'', ''4''), (''jmin'', ''40''), (''jmax'', ''70''),
       (''s1'', ''15''), (''s2'', ''18''), (''h1'', ''5''), (''h2'', ''100-200''),
       (''i1'', ''<b 0xA1B2C3D4E5F6><c>''), (''i3'', ''<r 16>'')]"
    by (simp add: awgKeyValues_def awgFieldOrder_def deviceManyFields_def configManyFields_def
        zeroASecConfig_def verbatim_def n h)
  have k: "ipcKeyValues deviceManyFields =
      [(''private_key'', ''00ff''), (''listen_port'', ''51820'')] @
      awgKeyValues (ASecConfig deviceManyFields) @
      [(''public_key'', ''ab01''), (''persistent_keepalive_interval'', ''25''),
       (''preshared_key'', ''0000''), (''endpoint'', ''94.140.11.15:51820''),
       (''allowed_ip'', ''10.0.0.0/8''), (''allowed_ip'', ''fd00::/8'')]"
    by (simp add: ipcKeyValues_def peerKeyValues_def deviceManyFields_def n)
  have c: "ASecConfig deviceManyFields = Some configManyFields"
    by (simp add: deviceManyFields_def)
  have f: "fieldIsSet configManyFields H2" "\<not> fieldIsSet configManyFields H3"
    "\<not> fieldIsSet configManyFields S3" "\<not> fieldIsSet configManyFields I2"
    by (simp_all add: configManyFields_def zeroASecConfig_def)
  from ipc_awg_lines [OF s] obtain st where st:
    "CreateIPCRequest deviceManyFields = Inr st"
    "map lineKeyValue (ipcLines (IpcRequest st)) = ipcKeyValues deviceManyFields"
    "filter isAwgKey (map lineKeyValue (ipcLines (IpcRequest st))) =
       awgKeyValues (ASecConfig deviceManyFields)"
    "\<forall>c f. ASecConfig deviceManyFields = Some c \<longrightarrow>
       (fieldKey f \<in> set (map fst (map lineKeyValue (ipcLines (IpcRequest st)))) \<longleftrightarrow>
        fieldIsSet c f)"
    by blast
  from st(4) c f have m:
    "fieldKey H2 \<in> set (map fst (map lineKeyValue (ipcLines (IpcRequest st))))"
    "fieldKey H3 \<notin> set (map fst (map lineKeyValue (ipcLines (IpcRequest st))))"
    "fieldKey S3 \<notin> set (map fst (map lineKeyValue (ipcLines (IpcRequest st))))"
    "fieldKey I2 \<notin> set (map fst (map lineKeyValue (ipcLines (IpcRequest st))))"
    by blast+
  have l: "map lineKeyValue (ipcLines (IpcRequest st)) =
      [(''private_key'', ''00ff''), (''listen_port'', ''51820''),
       (''jc'', ''4''), (''jmin'', ''40''), (''jmax'', ''70''),
       (''s1'', ''15''), (''s2'', ''18''), (''h1'', ''5''), (''h2'', ''100-200''),
       (''i1'', ''<b 0xA1B2C3D4E5F6><c>''), (''i3'', ''<r 16>''),
       (''public_key'', ''ab01''), (''persistent_keepalive_interval'', ''25''),
       (''preshared_key'', ''0000''), (''endpoint'', ''94.140.11.15:51820''),
       (''allowed_ip'', ''10.0.0.0/8''), (''allowed_ip'', ''fd00::/8'')]"
    unfolding st(2) k a by simp
  have g: "filter isAwgKey (map lineKeyValue (ipcLines (IpcRequest st))) =
      [(''jc'', ''4''), (''jmin'', ''40''), (''jmax'', ''70''),
       (''s1'', ''15''), (''s2'', ''18''), (''h1'', ''5''), (''h2'', ''100-200''),
       (''i1'', ''<b 0xA1B2C3D4E5F6><c>''), (''i3'', ''<r 16>'')]"
    unfolding st(3) a by simp
  show ?thesis
    using s st(1) l g m by (intro conjI exI [of _ st])
qed

section \<open>Properties of parseSocks5HeaderFast\<close>

lemma unat_byte_less: "unat (x :: byte) < 256"
  using unsigned_less [of x, where 'a = nat] by simp

lemma unat_ucast_byte: "unat (ucast (x :: byte) :: uint16) = unat x"
proof -
  have "unat x < 2 ^ 16" using unat_byte_less [of x] by simp
  then show ?thesis
    by (simp add: unsigned_ucast_eq take_bit_nat_eq_self)
qed

lemma unat_push_byte: "unat (push_bit 8 (ucast (x :: byte) :: uint16)) = 256 * unat x"
proof -
  have "256 * unat x < 2 ^ 16" using unat_byte_less [of x] by simp
  then show ?thesis
    unfolding unsigned_push_bit_eq unat_ucast_byte
    by (simp add: push_bit_eq_mult take_bit_nat_eq_self mult.commute)
qed

lemma BigEndian_Uint16_value: "unat (BigEndian_Uint16 hi lo) = portNumber hi lo"
proof -
  have "\<not> bit (ucast lo :: uint16) n \<or> \<not> bit (push_bit 8 (ucast hi :: uint16)) n" for n
    by (auto simp: bit_simps dest: bit_imp_le_length)
  then have "BigEndian_Uint16 hi lo = ucast lo + push_bit 8 (ucast hi)"
    unfolding BigEndian_Uint16_def by (rule disjunctive_add [symmetric])
  moreover have "unat lo + 256 * unat hi < 2 ^ 16"
    using unat_byte_less [of lo] unat_byte_less [of hi] by simp
  ultimately show ?thesis
    by (simp add: unat_word_ariths unat_ucast_byte unat_push_byte portNumber_def)
qed

lemma To4_IPv4: "To4 (IPv4 a b c d) = Some [a, b, c, d]"
  by (simp add: To4_def IPv4_def nth_append)

lemma IP_String_IPv4: "IP_String (IPv4 a b c d) = dottedQuad a b c d"
  by (simp add: IP_String_def To4_IPv4 string4_def dottedQuad_def) (simp add: IPv4_def)

lemma parse_accepts_iff:
  "parseDatagram data \<noteq> None \<longleftrightarrow> completeHeader data \<and> 10 \<le> length data"
  by (auto simp: parseDatagram_def parseSocks5HeaderFast_def rejected_def completeHeader_def
      Let_def split: if_splits)

lemma parse_datagramIPv4:
  "parseDatagram (datagramIPv4 a b c d hi lo payload) =
     Some (dottedQuad a b c d, BigEndian_Uint16 hi lo, payload)"
  by (simp add: parseDatagram_def parseSocks5HeaderFast_def datagramIPv4_def IP_String_IPv4)

lemma parse_datagramDomain:
  assumes "length name < 256" and "10 \<le> length (datagramDomain name hi lo payload)"
  shows "parseDatagram (datagramDomain name hi lo payload) =
     Some (bytesToString name, BigEndian_Uint16 hi lo, payload)"
proof -
  have l: "unat (of_nat (length name) :: byte) = length name"
    using assms(1) by (simp add: unat_of_nat)
  have n: "(name @ hi # lo # payload) ! length name = hi"
    "(name @ hi # lo # payload) ! Suc (length name) = lo"
    by (simp_all add: nth_append)
  have h: "parseSocks5HeaderFast (datagramDomain name hi lo payload) =
      (bytesToString name, BigEndian_Uint16 hi lo, 7 + length name, True)"
    using assms(2)
    by (simp add: parseSocks5HeaderFast_def datagramDomain_def l n)
  have "datagramDomain name hi lo payload =
      ([0x00, 0x00, 0x00, 0x03, of_nat (length name)] @ name @ [hi, lo]) @ payload"
    by (simp add: datagramDomain_def)
  moreover have "length ([0x00, 0x00, 0x00, 0x03, of_nat (length name) :: byte] @ name @ [hi, lo]) =
      7 + length name"
    by simp
  ultimately have "drop (7 + length name) (datagramDomain name hi lo payload) = payload"
    by (metis append_eq_conv_conj)
  with h show ?thesis
    by (simp add: parseDatagram_def)
qed

lemma parse_datagramIPv6:
  assumes "length addr = 16"
  shows "parseDatagram (datagramIPv6 addr hi lo payload) =
     Some (IP_String addr, BigEndian_Uint16 hi lo, payload)"
proof -
  have n: "(addr @ hi # lo # payload) ! 16 = hi" "(addr @ hi # lo # payload) ! 17 = lo"
    using assms by (simp_all add: nth_append)
  have "addr \<noteq> []" using assms by auto
  then obtain x xs where x: "addr = x # xs" by (cases addr) auto
  show ?thesis
    using assms n
    by (simp add: parseDatagram_def parseSocks5HeaderFast_def datagramIPv6_def nth_append)
qed

text \<open>
  Claim C6, as stated, asks that every datagram laid out per the request table is
  accepted. The 8 bytes \<open>00 00 00 03 01 61 00 50\<close> are such a datagram (the host \<open>a\<close>, of
  length 1, the port 80, no payload), and are rejected: the parser drops every
  datagram shorter than 10 bytes.
\<close>

theorem socks5_parse_counterexample:
  "completeHeader (datagramDomain [0x61] 0x00 0x50 []) \<and>
   parseDatagram (datagramDomain [0x61] 0x00 0x50 []) = None"
  by (simp add: completeHeader_def datagramDomain_def parseDatagram_def
      parseSocks5HeaderFast_def rejected_def)

text \<open>
  Claim C6, amended. A datagram is accepted if and only if it has at least 10 bytes
  and a complete header (RSV and FRAG zero, ATYP one of 1, 3, 4, the address and the
  port within the buffer); every other datagram is dropped. An accepted datagram laid
  out per the request table gives the declared host, port and payload: the dotted
  address for IPv4, the \<open>L\<close> bytes of the name for a domain, the text of the address for
  IPv6; the port is \<open>256 * high byte + low byte\<close>.
\<close>

theorem socks5_parse_layout:
  "(parseDatagram data \<noteq> None \<longleftrightarrow> completeHeader data \<and> 10 \<le> length data) \<and>
   parseDatagram (datagramIPv4 a b c d hi lo payload) =
     Some (dottedQuad a b c d, BigEndian_Uint16 hi lo, payload) \<and>
   (length name < 256 \<and> 10 \<le> length (datagramDomain name hi lo payload) \<longrightarrow>
      parseDatagram (datagramDomain name hi lo payload) =
        Some (bytesToString name, BigEndian_Uint16 hi lo, payload)) \<and>
   (length addr = 16 \<longrightarrow>
      parseDatagram (datagramIPv6 addr hi lo payload) =
        Some (IP_String addr, BigEndian_Uint16 hi lo, payload)) \<and>
   unat (BigEndian_Uint16 hi lo) = portNumber hi lo"
  using parse_accepts_iff [of data] parse_datagramIPv4 [of a b c d hi lo payload]
    parse_datagramDomain [of name hi lo payload] parse_datagramIPv6 [of addr hi lo payload]
    BigEndian_Uint16_value [of hi lo]
  by simp

theorem socks5_parse_layout_witness:
  "parseDatagram [0x00, 0x00, 0x00, 0x03, 0x02, 0x61, 0x62, 0x00, 0x50, 0x07] =
     Some (''ab'', 80, [0x07]) \<and>
   parseDatagram ([0x00, 0x00, 0x00, 0x04] @ replicate 15 0 @ [0x01, 0x1f, 0x90, 0x07]) =
     Some (''::1'', 8080, [0x07])"
proof -
  have d: "datagramDomain [0x61, 0x62] 0x00 0x50 [0x07] =
      [0x00, 0x00, 0x00, 0x03, 0x02, 0x61, 0x62, 0x00, 0x50, 0x07]"
    by (simp add: datagramDomain_def)
  have s: "bytesToString [0x61, 0x62] = ''ab''" "BigEndian_Uint16 0x00 0x50 = 80"
    "BigEndian_Uint16 0x1f 0x90 = 8080" "IP_String (replicate 15 0 @ [0x01]) = ''::1''"
    by code_simp+
  have v: "datagramIPv6 (replicate 15 0 @ [0x01]) 0x1f 0x90 [0x07] =
      [0x00, 0x00, 0x00, 0x04] @ replicate 15 0 @ [0x01, 0x1f, 0x90, 0x07]"
    by (simp add: datagramIPv6_def)
  show ?thesis
    using socks5_parse_layout [of _ _ _ _ _ "0x00" "0x50" "[0x07]" "[0x61, 0x62]" "[]"]
      socks5_parse_layout [of _ _ _ _ _ "0x1f" "0x90" "[0x07]" "[]" "replicate 15 0 @ [0x01]"]
    unfolding d s v by simp
qed

section \<open>Properties of the DNS cache\<close>

lemma Sub_less_iff:
  assumes "validTTL t"
  shows "Sub now ts < t \<longleftrightarrow> now - ts < t"
  using assms by (auto simp: Sub_def validTTL_def Let_def)

lemma firstIPv4_eq:
  "firstIPv4 ips = (case filter (\<lambda>c. To4 c \<noteq> None) ips of [] \<Rightarrow> None | v4 # _ \<Rightarrow> Some v4)"
  by (induction ips) auto

lemma chosen_eq:
  "ips \<noteq> [] \<Longrightarrow> (case firstIPv4 ips of Some c \<Rightarrow> c | None \<Rightarrow> ips ! 0) = selectIP ips"
  by (cases ips) (auto simp: firstIPv4_eq selectIP_def split: list.splits)

lemma Resolve_eq:
  assumes "validTTL (ttl d)"
  shows "Resolve d host now lookup now' =
     (if freshEntry d host now
      then (case cache d host of
              Some entry \<Rightarrow> (Inr (ip entry), d)
            | None \<Rightarrow> (Inl (New []), d))
      else (case lookup of
              Inl err \<Rightarrow> (Inl (Wrap (''DNS lookup failed for '' @ host) err), d)
            | Inr ips \<Rightarrow>
                if ips = [] then (Inl (New (''no IP found for '' @ host)), d)
                else (Inr (selectIP ips),
                      d\<lparr> cache := (cache d)(host \<mapsto>
                           \<lparr> ip = selectIP ips, timestamp = now' \<rparr>) \<rparr>)))"
  using Sub_less_iff [OF assms] chosen_eq
  by (auto simp: Resolve_def freshEntry_def Let_def split: option.splits sum.splits)

text \<open>
  Claim C9. For a cache with a valid time to live: \<open>Resolve\<close> returns the cached address,
  and leaves the cache as it is, exactly when the entry of the host is fresh
  (\<open>now - inserted_at < ttl\<close>); otherwise it takes the result of the lookup, fails
  when the lookup fails or gives no address, and else returns the first IPv4 address
  if there is one and the first address if not, stored in the cache with the current
  time. It returns an error if and only if it looks the host up and the lookup fails
  or gives no address.
\<close>

theorem dns_resolve:
  "validTTL (ttl d) \<longrightarrow>
     (freshEntry d host now \<longrightarrow>
        (\<exists>entry. cache d host = Some entry \<and> now - timestamp entry < ttl d \<and>
                 Resolve d host now lookup now' = (Inr (ip entry), d))) \<and>
     (\<not> freshEntry d host now \<longrightarrow>
        (\<forall>err. lookup = Inl err \<longrightarrow>
           Resolve d host now lookup now' =
             (Inl (Wrap (''DNS lookup failed for '' @ host) err), d)) \<and>
        (lookup = Inr [] \<longrightarrow>
           Resolve d host now lookup now' = (Inl (New (''no IP found for '' @ host)), d)) \<and>
        (\<forall>ips. lookup = Inr ips \<and> ips \<noteq> [] \<longrightarrow>
           Resolve d host now lookup now' =
             (Inr (selectIP ips),
              d\<lparr> cache := (cache d)(host \<mapsto> \<lparr> ip = selectIP ips, timestamp = now' \<rparr>) \<rparr>))) \<and>
     (isError (fst (Resolve d host now lookup now')) \<longleftrightarrow>
        \<not> freshEntry d host now \<and> lookupFails lookup)"
proof (intro impI)
  assume v: "validTTL (ttl d)"
  show "(freshEntry d host now \<longrightarrow>
        (\<exists>entry. cache d host = Some entry \<and> now - timestamp entry < ttl d \<and>
                 Resolve d host now lookup now' = (Inr (ip entry), d))) \<and>
     (\<not> freshEntry d host now \<longrightarrow>
        (\<forall>err. lookup = Inl err \<longrightarrow>
           Resolve d host now lookup now' =
             (Inl (Wrap (''DNS lookup failed for '' @ host) err), d)) \<and>
        (lookup = Inr [] \<longrightarrow>
           Resolve d host now lookup now' = (Inl (New (''no IP found for '' @ host)), d)) \<and>
        (\<forall>ips. lookup = Inr ips \<and> ips \<noteq> [] \<longrightarrow>
           Resolve d host now lookup now' =
             (Inr (selectIP ips),
              d\<lparr> cache := (cache d)(host \<mapsto> \<lparr> ip = selectIP ips, timestamp = now' \<rparr>) \<rparr>))) \<and>
     (isError (fst (Resolve d host now lookup now')) \<longleftrightarrow>
        \<not> freshEntry d host now \<and> lookupFails lookup)"
  proof (cases "freshEntry d host now")
    case True
    then obtain entry where e: "cache d host = Some entry" "now - timestamp entry < ttl d"
      by (auto simp: freshEntry_def split: option.splits)
    with True show ?thesis
      by (simp add: Resolve_eq [OF v] isError_def)
  next
    case False
    then show ?thesis
      by (cases lookup) (simp_all add: Resolve_eq [OF v] isError_def lookupFails_def)
  qed
qed

theorem dns_resolve_witness:
  "validTTL (ttl cacheExample) \<and>
   Resolve cacheExample ''example.org'' 2000000000 lookupExample 2000000001 =
     (Inr [93, 184, 216, 34], cacheExample) \<and>
   Resolve cacheExample ''example.org'' 7000000000 lookupExample 7000000001 =
     (Inr [10, 0, 0, 1],
      cacheExample\<lparr> cache := (cache cacheExample)(''example.org'' \<mapsto>
        \<lparr> ip = [10, 0, 0, 1], timestamp = 7000000001 \<rparr>) \<rparr>) \<and>
   isError (fst (Resolve cacheExample ''example.org'' 7000000000 (Inr []) 7000000001)) \<and>
   Resolve cacheExample ''example.org'' 7000000000 (Inl (LookupError ''no such host''))
       7000000001 =
     (Inl (Wrap ''DNS lookup failed for example.org'' (LookupError ''no such host'')),
      cacheExample)"
proof -
  have v: "validTTL (ttl cacheExample)"
    by (simp add: validTTL_def cacheExample_def minDuration_def maxDuration_def)
  have f: "freshEntry cacheExample ''example.org'' 2000000000"
    "\<not> freshEntry cacheExample ''example.org'' 7000000000"
    by (simp_all add: freshEntry_def cacheExample_def)
  have e: "cache cacheExample ''example.org'' =
      Some \<lparr> ip = [93, 184, 216, 34], timestamp = 1000000000 \<rparr>"
    by (simp add: cacheExample_def)
  have s: "selectIP [replicate 15 0 @ [1], [10, 0, 0, 1], [10, 0, 0, 2]] = [10, 0, 0, 1]"
    by code_simp
  have l: "lookupFails (Inr [])" by (simp add: lookupFails_def)
  show ?thesis
    using dns_resolve [of cacheExample "''example.org''" 2000000000 lookupExample 2000000001]
      dns_resolve [of cacheExample "''example.org''" 7000000000 lookupExample 7000000001]
      dns_resolve [of cacheExample "''example.org''" 7000000000 "Inr []" 7000000001]
      dns_resolve [of cacheExample "''example.org''" 7000000000
        "Inl (LookupError ''no such host'')" 7000000001]
      v f e s l
    by (simp add: lookupExample_def isError_def)
qed

section \<open>Properties of the connection pool\<close>

subsection \<open>The loops that remove entries\<close>

lemma deleteOld_fold: "deleteOld keys s = fold Delete keys s"
  by (induction keys arbitrary: s) (simp_all add: Delete_def Let_def)

lemma evictOldest_fold: "evictOldest keys s = fold Delete keys s"
  by (induction keys arbitrary: s) (simp_all add: Delete_def Let_def)

lemma Delete_dom: "dom (connections (pool (Delete key s))) = dom (connections (pool s)) - {key}"
  by (auto simp: Delete_def Let_def split: option.splits)

lemma fold_Delete_dom:
  "dom (connections (pool (fold Delete keys s))) = dom (connections (pool s)) - set keys"
  by (induction keys arbitrary: s) (auto simp: Delete_dom)

lemma Delete_sizeMatches: "sizeMatches s \<Longrightarrow> sizeMatches (Delete key s)"
proof -
  assume a: "sizeMatches s"
  show ?thesis
  proof (cases "connections (pool s) key")
    case None
    with a show ?thesis by (simp add: Delete_def sizeMatches_def)
  next
    case (Some conn)
    then have k: "key \<in> dom (connections (pool s))" by auto
    from a have f: "finite (dom (connections (pool s)))" by (simp add: sizeMatches_def)
    with k have "0 < card (dom (connections (pool s)))" by (auto simp: card_gt_0_iff)
    with a f k Some show ?thesis
      by (simp add: Delete_def sizeMatches_def)
  qed
qed

lemma fold_Delete_sizeMatches: "sizeMatches s \<Longrightarrow> sizeMatches (fold Delete keys s)"
  by (induction keys arbitrary: s) (simp_all add: Delete_sizeMatches)

subsection \<open>The scan for the oldest entries\<close>

lemma replaceFirstLater_Nil: "replaceFirstLater s t key [] = []"
  by (simp add: replaceFirstLater_def)

lemma replaceFirstLater_Cons:
  "replaceFirstLater s t key (k # ks) =
     (if t < keyLastUsed s k then key # ks else k # replaceFirstLater s t key ks)"
proof (cases "t < keyLastUsed s k")
  case True
  then show ?thesis by (simp add: replaceFirstLater_def)
next
  case False
  define P where "P = (\<lambda>k. \<not> t < keyLastUsed s k)"
  have "P k" using False by (simp add: P_def)
  then have d: "dropWhile P (k # ks) = dropWhile P ks"
    and t: "takeWhile P (k # ks) = k # takeWhile P ks"
    by simp_all
  have "(case dropWhile P (k # ks) of [] \<Rightarrow> k # ks
          | _ # rest \<Rightarrow> takeWhile P (k # ks) @ key # rest) =
        k # (case dropWhile P ks of [] \<Rightarrow> ks | _ # rest \<Rightarrow> takeWhile P ks @ key # rest)"
    unfolding d t by (cases "dropWhile P ks") (simp_all only: list.case append_Cons)
  then show ?thesis
    using False unfolding replaceFirstLater_def P_def by simp
qed

lemma replaceNewer_eq:
  assumes "set oldest \<subseteq> dom (connections (pool s))"
  shows "replaceNewer s key conn oldest =
     Some (replaceFirstLater s (lastUsed (heap s conn)) key oldest)"
  using assms
proof (induction oldest)
  case Nil
  show ?case by (simp add: replaceFirstLater_Nil)
next
  case (Cons oldKey olds)
  then obtain oldConn where o: "connections (pool s) oldKey = Some oldConn" by auto
  then have k: "keyLastUsed s oldKey = lastUsed (heap s oldConn)"
    by (simp add: keyLastUsed_def)
  from Cons have ih: "replaceNewer s key conn olds =
      Some (replaceFirstLater s (lastUsed (heap s conn)) key olds)" by simp
  show ?case
    using o ih k by (simp add: replaceFirstLater_Cons)
qed

lemma replaceFirstLater_length: "length (replaceFirstLater s t key oldest) = length oldest"
  by (induction oldest) (simp_all add: replaceFirstLater_Nil replaceFirstLater_Cons)

lemma replaceFirstLater_set:
  "set (replaceFirstLater s t key oldest) \<subseteq> insert key (set oldest)"
  by (induction oldest) (auto simp: replaceFirstLater_Nil replaceFirstLater_Cons)

lemma scanOldest_step:
  assumes "set oldest \<subseteq> dom (connections (pool s))"
  shows "scanOldest s count ((key, conn) # rest) oldest =
     scanOldest s count rest
       (if length oldest < count then oldest @ [key]
        else replaceFirstLater s (lastUsed (heap s conn)) key oldest)"
  using replaceNewer_eq [OF assms] by simp

lemma scanOldest_total:
  assumes "set oldest \<subseteq> dom (connections (pool s))"
    and "fst ` set entries \<subseteq> dom (connections (pool s))"
    and "length oldest \<le> count"
  shows "\<exists>res. scanOldest s count entries oldest = Some res \<and> length res \<le> count \<and>
           set res \<subseteq> dom (connections (pool s))"
  using assms
proof (induction entries arbitrary: oldest)
  case Nil
  then show ?case by simp
next
  case (Cons e entries)
  obtain key conn where e: "e = (key, conn)" by (cases e)
  let ?next = "if length oldest < count then oldest @ [key]
        else replaceFirstLater s (lastUsed (heap s conn)) key oldest"
  from Cons.prems e have k: "key \<in> dom (connections (pool s))" by auto
  have "set ?next \<subseteq> dom (connections (pool s))"
    using Cons.prems(1) k replaceFirstLater_set [of s "lastUsed (heap s conn)" key oldest]
    by auto
  moreover have "fst ` set entries \<subseteq> dom (connections (pool s))"
    using Cons.prems(2) by auto
  moreover have "length ?next \<le> count"
    using Cons.prems(3) by (simp add: replaceFirstLater_length)
  ultimately have "\<exists>res. scanOldest s count entries ?next = Some res \<and> length res \<le> count \<and>
           set res \<subseteq> dom (connections (pool s))"
    by (rule Cons.IH)
  then show ?case
    unfolding e scanOldest_step [OF Cons.prems(1)] .
qed

lemma rangeMap_keys: "fst ` set (rangeMap order m) \<subseteq> dom m"
  by (auto simp: rangeMap_def map_filter_def)

lemma scan_of_range:
  "\<exists>oldest. scanOldest s count (rangeMap order (connections (pool s))) [] = Some oldest \<and>
      length oldest \<le> count \<and> set oldest \<subseteq> dom (connections (pool s))"
  using rangeMap_keys by (intro scanOldest_total) simp_all

lemma cleanupOldestLocked_eq:
  "\<exists>oldest. scanOldest s count (rangeMap order (connections (pool s))) [] = Some oldest \<and>
      length oldest \<le> count \<and>
      cleanupOldestLocked count order s =
        Some (if currentSize (pool s) \<le> int count then s else fold Delete oldest s)"
  using scan_of_range [of s count order]
  by (auto simp: cleanupOldestLocked_def evictOldest_fold)

lemma Set_eq:
  "Set key conn now order s =
     (if maxSize (pool s) \<le> currentSize (pool s)
      then map_option (storeConn key conn now) (cleanupOldestLocked 5 order s)
      else Some (storeConn key conn now s))"
  by (simp add: Set_def split: option.splits)




subsection \<open>The size of the pool\<close>

lemma storeConn_absent_sizeMatches:
  assumes "sizeMatches s" and "key \<notin> dom (connections (pool s))"
  shows "sizeMatches (storeConn key conn now s)"
  using assms by (simp add: storeConn_def sizeMatches_def)

lemma storeConn_present_size:
  assumes "sizeMatches s" and "key \<in> dom (connections (pool s))"
  shows "\<not> sizeMatches (storeConn key conn now s)"
proof -
  have "insert key (dom (connections (pool s))) = dom (connections (pool s))"
    using assms(2) by auto
  with assms show ?thesis
    by (simp add: storeConn_def sizeMatches_def)
qed

lemma Get_sizeMatches: "sizeMatches s \<Longrightarrow> sizeMatches (snd (Get key now s))"
  by (simp add: Get_def sizeMatches_def split: option.splits)

lemma Cleanup_sizeMatches: "sizeMatches s \<Longrightarrow> sizeMatches (Cleanup maxAge now order s)"
  by (simp add: Cleanup_def cleanupOldLocked_def deleteOld_fold fold_Delete_sizeMatches)

lemma cleanupOldestLocked_sizeMatches:
  assumes "sizeMatches s" and "cleanupOldestLocked count order s = Some s'"
  shows "sizeMatches s' \<and> dom (connections (pool s')) \<subseteq> dom (connections (pool s))"
proof -
  from cleanupOldestLocked_eq [of s count order] assms(2)
  obtain oldest where
    "s' = (if currentSize (pool s) \<le> int count then s else fold Delete oldest s)"
    by auto
  then consider "s' = s" | "s' = fold Delete oldest s"
    by (cases "currentSize (pool s) \<le> int count") simp_all
  then show ?thesis
  proof cases
    case 1
    with assms(1) show ?thesis by simp
  next
    case 2
    with assms(1) show ?thesis
      by (simp add: fold_Delete_sizeMatches fold_Delete_dom)
  qed
qed

lemma Set_absent_sizeMatches:
  assumes "sizeMatches s" and "key \<notin> dom (connections (pool s))"
    and "Set key conn now order s = Some s'"
  shows "sizeMatches s'"
proof (cases "maxSize (pool s) \<le> currentSize (pool s)")
  case True
  with assms(3) obtain s1 where s1: "cleanupOldestLocked 5 order s = Some s1"
    "s' = storeConn key conn now s1"
    by (auto simp: Set_eq)
  from cleanupOldestLocked_sizeMatches [OF assms(1) s1(1)] assms(2)
  have "sizeMatches s1" "key \<notin> dom (connections (pool s1))" by auto
  then show ?thesis unfolding s1(2) by (rule storeConn_absent_sizeMatches)
next
  case False
  with assms(3) have "s' = storeConn key conn now s"
    by (simp add: Set_eq)
  with assms(1,2) show ?thesis
    by (simp add: storeConn_absent_sizeMatches)
qed

lemma freshState_sizeMatches: "sizeMatches freshState"
  by (simp add: sizeMatches_def freshState_def NewUDPConnectionPool_def)

text \<open>
  The invariant of the pool holds along every sequence of operations in which each
  \<open>Set\<close> is for a key that the map does not hold.
\<close>

lemma pool_size_absent_keys:
  assumes "sizeMatches s" and "setsAbsentKeys ops s" and "runOps ops s = Some s'"
  shows "sizeMatches s'"
  using assms
proof (induction ops arbitrary: s)
  case Nil
  then show ?case by simp
next
  case (Cons op ops)
  from Cons.prems(3) obtain s1 where s1: "applyOp op s = Some s1" "runOps ops s1 = Some s'"
    by (auto split: option.splits)
  have "sizeMatches s1"
  proof (cases op)
    case (OpGet key now)
    with s1(1) Cons.prems(1) show ?thesis by (auto simp: Get_sizeMatches)
  next
    case (OpSet key conn now order)
    with s1(1) Cons.prems(1,2) show ?thesis
      using Set_absent_sizeMatches [of s key conn now order s1] by auto
  next
    case (OpDelete key)
    with s1(1) Cons.prems(1) show ?thesis by (auto simp: Delete_sizeMatches)
  next
    case (OpCleanup maxAge now order)
    with s1(1) Cons.prems(1) show ?thesis by (auto simp: Cleanup_sizeMatches)
  qed
  moreover have "setsAbsentKeys ops s1"
    using Cons.prems(2) s1(1) by simp
  ultimately show ?case
    using s1(2) by (rule Cons.IH)
qed

text \<open>
  Claim C7 fails on the code. From a fresh pool, two calls of \<open>Set\<close> for the key \<open>a\<close>
  leave one key in the map and \<open>currentSize = 2\<close>: \<open>Set\<close> counts up whether or not the
  key is new, where \<open>Delete\<close> counts down only for a key it finds.
\<close>

theorem pool_size_double_set:
  "\<exists>s. runOps [OpSet ''a'' 1 100 [], OpSet ''a'' 2 200 [''a'']] freshState = Some s \<and>
        dom (connections (pool s)) = {''a''} \<and> currentSize (pool s) = 2 \<and>
        \<not> sizeMatches s"
  by (simp add: Set_def storeConn_def freshState_def NewUDPConnectionPool_def sizeMatches_def)

end
